theory Spec2Isabelle
  imports Complex_Main "HOL-Library.Word" "HOL-Library.Monad_Syntax"
begin

section \<open>Integers and the boundary resolver\<close>

text \<open>
  The C type \<open>int\<close> is taken to be 32 bits wide, and a value of the type is modelled by
  the integer it denotes, from \<open>INT_MIN\<close> to \<open>INT_MAX\<close>. C leaves the overflow of a signed
  operation undefined; the machines the code runs on compute in two's complement, and
  that is what the model follows: where an operation of \<open>posmod\<close>, \<open>reflect\<close> or
  \<open>make_clist\<close> can leave the range, its result is \<open>wrap\<close> of the exact one. The operator
  \<open>%\<close> of C truncates towards zero, unlike \<open>mod\<close> of HOL, so it is written out.
\<close>

definition INT_MIN :: int where
  "INT_MIN = - (2 ^ 31)"

definition INT_MAX :: int where
  "INT_MAX = 2 ^ 31 - 1"

definition wrap :: "int \<Rightarrow> int" where
  "wrap x = (x + 2 ^ 31) mod 2 ^ 32 - 2 ^ 31"

definition c_div :: "int \<Rightarrow> int \<Rightarrow> int" where
  "c_div a b = sgn a * sgn b * (\<bar>a\<bar> div \<bar>b\<bar>)"

definition c_rem :: "int \<Rightarrow> int \<Rightarrow> int" where
  "c_rem a b = a - b * c_div a b"

text \<open>
  \<open>posmod\<close>: (x mod y) with special handling for negative x values. The negation \<open>-x\<close>
  overflows for \<open>x = INT_MIN\<close>, where it gives \<open>INT_MIN\<close> again.
\<close>

definition posmod :: "int \<Rightarrow> int \<Rightarrow> int" where
  "posmod x y =
     (if x \<ge> 0 then c_rem x y
      else (let m = c_rem (wrap (- x)) y in if m \<noteq> 0 then wrap (y - m) else m))"

datatype Boundary_Op = BOUNDARY_WRAP | BOUNDARY_REFLECT | BOUNDARY_CLAMP

text \<open>
  \<open>Resampler::reflect\<close>: any policy that is neither reflect nor wrap takes the clamp
  branch, as in the source's \<open>else\<close>. The negation \<open>-j\<close> overflows for \<open>j = INT_MIN\<close>.
\<close>

definition reflect :: "int \<Rightarrow> int \<Rightarrow> Boundary_Op \<Rightarrow> int" where
  "reflect j src_w boundary_op =
     (if j < 0 then
        (if boundary_op = BOUNDARY_REFLECT then
           (let n = wrap (- j) in if n \<ge> src_w then wrap (src_w - 1) else n)
         else if boundary_op = BOUNDARY_WRAP then posmod j src_w
         else 0)
      else if j \<ge> src_w then
        (if boundary_op = BOUNDARY_REFLECT then
           (let n = wrap (wrap (src_w - j) + wrap (src_w - 1)) in if n < 0 then 0 else n)
         else if boundary_op = BOUNDARY_WRAP then posmod j src_w
         else wrap (src_w - 1))
      else j)"

section \<open>Arithmetic on samples\<close>

text \<open>
  \<open>Resample_Real\<close> is declared in \<open>resampler.h\<close>; the literals of the source
  (\<open>1.0f\<close>, \<open>0.5f\<close>) are those of a floating-point type. A value of the type is modelled
  by the real number it denotes, and every arithmetic operation of the source by the exact
  operation followed by the rounding \<open>fl\<close> of the type, which is a parameter of the model:
  \<open>\<lambda>x. x\<close> is exact arithmetic, \<open>binary32\<close> below is IEEE 754 single precision with
  rounding to nearest, ties to even. Infinities and NaN are not values of the model; the
  places where the source can produce them (a division by zero) are explicit branches.
\<close>

type_synonym Resample_Real = real
type_synonym rounding = "real \<Rightarrow> real"

definition round_even :: "real \<Rightarrow> int" where
  "round_even q =
     (let f = \<lfloor>q\<rfloor>; d = q - of_int f
      in if d < 1 / 2 then f else if 1 / 2 < d then f + 1
         else if even f then f else f + 1)"

text \<open>The exponent \<open>e\<close> with \<open>2 ^ e \<le> x < 2 ^ (e + 1)\<close>, for \<open>x > 0\<close>.\<close>

function expo :: "real \<Rightarrow> int" where
  "expo x = (if x \<le> 0 then 0
             else if 2 \<le> x then expo (x / 2) + 1
             else if x < 1 then expo (2 * x) - 1
             else 0)"
  by pat_completeness auto
termination
proof (relation "measure (\<lambda>x. if 2 \<le> x then nat \<lceil>x\<rceil> else if x < 1 \<and> 0 < x then nat \<lceil>1 / x\<rceil> else 0)")
  show "wf (measure (\<lambda>x::real. if 2 \<le> x then nat \<lceil>x\<rceil> else if x < 1 \<and> 0 < x then nat \<lceil>1 / x\<rceil> else 0))"
    by simp
next
  fix x :: real
  assume a: "\<not> x \<le> 0" "2 \<le> x"
  have "\<lceil>x / 2\<rceil> < \<lceil>x\<rceil>"
  proof -
    have "x / 2 \<le> x - 1" using a by simp
    also have "\<dots> \<le> of_int \<lceil>x\<rceil> - 1" by simp
    finally have "x / 2 \<le> of_int (\<lceil>x\<rceil> - 1)" by simp
    then have "\<lceil>x / 2\<rceil> \<le> \<lceil>x\<rceil> - 1" by (rule ceiling_le)
    then show ?thesis by simp
  qed
  moreover have "0 < \<lceil>x\<rceil>" using a by (simp add: ceiling_less_iff)
  ultimately show "(x / 2, x) \<in> measure (\<lambda>x. if 2 \<le> x then nat \<lceil>x\<rceil> else if x < 1 \<and> 0 < x then nat \<lceil>1 / x\<rceil> else 0)"
    using a by auto
next
  fix x :: real
  assume a: "\<not> x \<le> 0" "\<not> 2 \<le> x" "x < 1"
  have "\<lceil>1 / (2 * x)\<rceil> < \<lceil>1 / x\<rceil>"
  proof -
    have "1 < 1 / x" using a by simp
    then have "1 < \<lceil>1 / x\<rceil>" by (simp add: less_ceiling_iff)
    then have c: "(2::real) \<le> of_int \<lceil>1 / x\<rceil>" by linarith
    have "1 / (2 * x) = (1 / x) / 2" by simp
    also have "\<dots> \<le> of_int \<lceil>1 / x\<rceil> / 2" by (simp add: divide_right_mono)
    also have "\<dots> \<le> of_int \<lceil>1 / x\<rceil> - 1" using c by simp
    finally have "1 / (2 * x) \<le> of_int (\<lceil>1 / x\<rceil> - 1)" by simp
    then have "\<lceil>1 / (2 * x)\<rceil> \<le> \<lceil>1 / x\<rceil> - 1" by (rule ceiling_le)
    then show ?thesis by simp
  qed
  moreover have "0 < \<lceil>1 / x\<rceil>" using a by (simp add: ceiling_less_iff)
  ultimately show "(2 * x, x) \<in> measure (\<lambda>x. if 2 \<le> x then nat \<lceil>x\<rceil> else if x < 1 \<and> 0 < x then nat \<lceil>1 / x\<rceil> else 0)"
    using a by auto
qed

text \<open>
  Rounding to 24 significant bits, nearest with ties to even: the value of a \<open>float\<close>
  operation wherever the exact result lies in the range of normal numbers (the exponent
  is not bounded here, so overflow and gradual underflow are outside the model).
\<close>

definition binary32 :: rounding where
  "binary32 x =
     (if x = 0 then 0
      else let u = 2 powi (expo \<bar>x\<bar> - 23)
           in of_int (round_even (x / u)) * u)"

section \<open>The contributor-list builder\<close>

text \<open>
  A contributor: the weight and the source sample number, stored through the cast
  \<open>(unsigned short)\<close>. A \<open>Contrib_List\<close> (the count \<open>n\<close> and the pointer \<open>p\<close> into the
  pool) is the list of its contributors, in the order they were stored.
\<close>

record Contrib =
  weight :: Resample_Real
  pixel :: "16 word"

type_synonym Contrib_List = "Contrib list"

record Contrib_Bounds =
  center :: Resample_Real
  left :: int
  right :: int

text \<open>
  What \<open>make_clist\<close> gives back: the table, or \<open>NULL\<close>. Three more outcomes stand for
  the executions without a result in the model: undefined behaviour (an \<open>assert\<close> of the
  source that fails, an access outside an array, a conversion to \<open>int\<close> of a value outside
  the range of the type), an arithmetic operation whose IEEE result is an infinity or a
  NaN, and a loop or a call of the filter that does not end.
\<close>

datatype 'a outcome = Built 'a | Null | Undefined | Non_finite | No_return

text \<open>Whether the allocation assigned to the named pointer succeeds.\<close>

type_synonym allocator = "string \<Rightarrow> bool"

text \<open>
  The heap, as far as \<open>make_clist\<close> is concerned: the blocks that the call has allocated
  and not freed, each named by the pointer that \<open>calloc\<close> was assigned to. \<open>free\<close> takes
  the block of a pointer off the heap.
\<close>

type_synonym heap = "string list"

definition free :: "string \<Rightarrow> heap \<Rightarrow> heap" where
  "free v h = remove1 v h"

definition NUDGE :: Resample_Real where
  "NUDGE = 1 / 2"

text \<open>
  The first loop body: the center and the candidate range of destination sample \<open>i\<close>.
  \<open>left\<close> and \<open>right\<close> are the values that \<open>static_cast<int>\<close> is applied to;
  \<open>make_clist\<close> below leaves the model when one of them is not a value of \<open>int\<close>.
\<close>

definition contrib_bounds ::
  "rounding \<Rightarrow> Resample_Real \<Rightarrow> Resample_Real \<Rightarrow> Resample_Real \<Rightarrow> int \<Rightarrow> Contrib_Bounds" where
  "contrib_bounds fl xscale half_width src_ofs i =
     (let c = fl (fl (fl (of_int i) + NUDGE) / xscale);
          c = fl (c - NUDGE);
          c = fl (c + src_ofs)
      in \<lparr>center = c,
          left = \<lfloor>fl (c - half_width)\<rfloor>,
          right = \<lceil>fl (c + half_width)\<rceil>\<rparr>)"

text \<open>
  The argument handed to the filter for candidate \<open>j\<close>:
  \<open>(center - (Resample_Real) j) * oo_filter_scale * (downsampling ? xscale : 1.0f)\<close>.
\<close>

definition filter_arg ::
  "rounding \<Rightarrow> Resample_Real \<Rightarrow> Resample_Real \<Rightarrow> bool \<Rightarrow> Resample_Real \<Rightarrow> int
     \<Rightarrow> Resample_Real" where
  "filter_arg fl oo_filter_scale xscale downsampling c j =
     fl (fl (fl (c - fl (of_int j)) * oo_filter_scale) * (if downsampling then xscale else 1))"

text \<open>The number of candidates of a destination sample, \<open>(right - left + 1)\<close>.\<close>

definition range_size :: "Contrib_Bounds \<Rightarrow> int" where
  "range_size b = wrap (wrap (right b - left b) + 1)"

text \<open>The loop that sums the raw weights of the candidates.\<close>

fun sum_weights :: "rounding \<Rightarrow> (int \<Rightarrow> Resample_Real) \<Rightarrow> int list \<Rightarrow> Resample_Real \<Rightarrow> Resample_Real" where
  "sum_weights fl w [] total_weight = total_weight"
| "sum_weights fl w (j # js) total_weight = sum_weights fl w js (fl (total_weight + w j))"

text \<open>The state of the loop that stores the contributors of one destination sample.\<close>

record clist_state =
  p :: "Contrib list"
  total_weight :: Resample_Real
  max_k :: int
  max_w :: Resample_Real

fun store_contribs ::
  "rounding \<Rightarrow> int \<Rightarrow> Boundary_Op \<Rightarrow> (int \<Rightarrow> Resample_Real) \<Rightarrow> Resample_Real
     \<Rightarrow> int list \<Rightarrow> clist_state \<Rightarrow> clist_state" where
  "store_contribs fl src_w boundary_op w nrm [] st = st"
| "store_contribs fl src_w boundary_op w nrm (j # js) st =
     (let weight = fl (w j * nrm)
      in if weight = 0 then store_contribs fl src_w boundary_op w nrm js st
         else
           let n = reflect j src_w boundary_op;
               k = int (length (p st));
               st = st\<lparr>p := p st @ [\<lparr>weight = weight, pixel = word_of_int n\<rparr>],
                       total_weight := fl (total_weight st + weight)\<rparr>;
               st = (if max_w st < weight then st\<lparr>max_w := weight, max_k := k\<rparr> else st)
           in store_contribs fl src_w boundary_op w nrm js st)"

text \<open>
  One pass of the second loop, for the destination sample with bounds \<open>b\<close>. The inner
  loops run \<open>j\<close> from \<open>left\<close> while \<open>j <= right\<close>: with \<open>right = INT_MAX\<close> the test never
  fails (\<open>j++\<close> wraps around) and the first of them does not end. A filter is
  a function that may not return (\<open>None\<close>; see \<open>bessel0\<close>): the first inner loop calls it
  on every candidate, so one such call keeps \<open>make_clist\<close> from returning. When the raw
  total is zero, \<open>norm\<close> is an infinity: every candidate whose raw weight is zero then gets
  the weight NaN, which is neither \<open>== 0.0f\<close> nor \<open>> max_w\<close>, so with all raw weights zero
  (or no candidate at all) \<open>max_k\<close> stays \<open>-1\<close> and the function returns \<open>NULL\<close>; a nonzero
  raw weight gives an infinite weight, outside the model.
\<close>

definition make_row ::
  "rounding \<Rightarrow> int \<Rightarrow> Boundary_Op \<Rightarrow> (Resample_Real \<Rightarrow> Resample_Real option)
     \<Rightarrow> Resample_Real \<Rightarrow> Resample_Real \<Rightarrow> bool \<Rightarrow> Contrib_Bounds \<Rightarrow> Contrib_List outcome" where
  "make_row fl src_w boundary_op Pfilter oo_filter_scale xscale downsampling b =
     (let js = [left b .. right b];
          arg = filter_arg fl oo_filter_scale xscale downsampling (center b)
      in if left b \<le> right b \<and> right b = INT_MAX then No_return
         else if \<exists>j \<in> set js. Pfilter (arg j) = None then No_return
         else
           let w = (\<lambda>j. the (Pfilter (arg j)));
               raw_total = sum_weights fl w js 0
           in if raw_total = 0 then (if \<forall>j \<in> set js. w j = 0 then Null else Non_finite)
              else
                let nrm = fl (1 / raw_total);
                    st = store_contribs fl src_w boundary_op w nrm js
                           \<lparr>p = [], total_weight = 0, max_k = - 1, max_w = fl (- (10 ^ 20))\<rparr>
                in if max_k st = - 1 \<or> length (p st) = 0 then Null
                   else if total_weight st \<noteq> 1
                     then Built ((p st)[nat (max_k st) :=
                            (p st ! nat (max_k st))\<lparr>weight :=
                               fl (weight (p st ! nat (max_k st)) + fl (1 - total_weight st))\<rparr>])
                     else Built (p st))"

text \<open>
  The second loop. \<open>used\<close> is \<open>Pcpool_next - Pcpool\<close>; the assertion on it comes before the
  contributors of the sample are computed. As long as no sample has failed, every earlier
  sample has kept at least one candidate, so its share of the pool is not empty and the
  shares do not overlap: each \<open>Pcontrib[i].p\<close> is a list of its own.
\<close>

fun make_rows ::
  "(Contrib_Bounds \<Rightarrow> Contrib_List outcome) \<Rightarrow> int \<Rightarrow> int \<Rightarrow> Contrib_Bounds list
     \<Rightarrow> Contrib_List list outcome" where
  "make_rows row pool_total used [] = Built []"
| "make_rows row pool_total used (b # bs) =
     (let used = used + range_size b
      in if pool_total < used then Undefined
         else case row b of
                Built l \<Rightarrow>
                  (case make_rows row pool_total used bs of
                     Built ls \<Rightarrow> Built (l # ls)
                   | Null \<Rightarrow> Null
                   | Undefined \<Rightarrow> Undefined
                   | Non_finite \<Rightarrow> Non_finite
                   | No_return \<Rightarrow> No_return)
              | Null \<Rightarrow> Null
              | Undefined \<Rightarrow> Undefined
              | Non_finite \<Rightarrow> Non_finite
              | No_return \<Rightarrow> No_return)"

text \<open>
  \<open>Resampler::make_clist\<close>, with the heap it leaves: the pair of what it returns and of
  the blocks it has allocated and not freed. The divisions by \<open>filter_scale\<close>, by the
  converted \<open>src_w\<close> and by \<open>xscale\<close> are guarded: a zero divisor leaves the model, and so
  does a bound of a candidate range that does not fit \<open>int\<close>. The count \<open>n\<close> of all the
  candidates is added up in \<open>int\<close>. On \<open>NULL\<close> from the second loop the three blocks are
  freed, in the order of the source; the table that is returned lives in the blocks of
  \<open>Pcontrib\<close> and \<open>Pcpool\<close>.
\<close>

definition make_clist_heap ::
  "rounding \<Rightarrow> allocator \<Rightarrow> int \<Rightarrow> int \<Rightarrow> Boundary_Op
     \<Rightarrow> (Resample_Real \<Rightarrow> Resample_Real option)
     \<Rightarrow> Resample_Real \<Rightarrow> Resample_Real \<Rightarrow> Resample_Real
     \<Rightarrow> Contrib_List list outcome \<times> heap" where
  "make_clist_heap fl alloc src_w dst_w boundary_op Pfilter filter_support filter_scale src_ofs =
     (if \<not> alloc ''Pcontrib'' then (Null, [])
      else if \<not> alloc ''Pcontrib_bounds'' then (Null, free ''Pcontrib'' [''Pcontrib''])
      else
        let h = [''Pcontrib_bounds'', ''Pcontrib'']
        in if filter_scale = 0 \<or> fl (of_int src_w) = 0 then (Non_finite, h)
           else
             let oo_filter_scale = fl (1 / filter_scale);
                 xscale = fl (fl (of_int dst_w) / fl (of_int src_w));
                 downsampling = (xscale < 1)
             in if xscale = 0 then (Non_finite, h)
                else
                  let half_width =
                        fl ((if downsampling then fl (filter_support / xscale)
                             else filter_support) * filter_scale);
                      Pcontrib_bounds =
                        map (contrib_bounds fl xscale half_width src_ofs) [0 .. dst_w - 1];
                      pool_total = foldl (\<lambda>n b. wrap (n + range_size b)) 0 Pcontrib_bounds
                  in if \<exists>b \<in> set Pcontrib_bounds.
                          left b < INT_MIN \<or> INT_MAX < left b
                          \<or> right b < INT_MIN \<or> INT_MAX < right b
                     then (Undefined, h)
                     else if pool_total = 0 \<or> \<not> alloc ''Pcpool''
                     then (Null, free ''Pcontrib_bounds'' (free ''Pcontrib'' h))
                     else
                       let h = ''Pcpool'' # h
                       in case make_rows
                                 (make_row fl src_w boundary_op Pfilter oo_filter_scale xscale
                                    downsampling)
                                 pool_total 0 Pcontrib_bounds of
                            Built t \<Rightarrow> (Built t, free ''Pcontrib_bounds'' h)
                          | Null \<Rightarrow>
                              (Null, free ''Pcontrib_bounds''
                                       (free ''Pcontrib'' (free ''Pcpool'' h)))
                          | Undefined \<Rightarrow> (Undefined, h)
                          | Non_finite \<Rightarrow> (Non_finite, h)
                          | No_return \<Rightarrow> (No_return, h))"

text \<open>What \<open>make_clist\<close> returns.\<close>

definition make_clist ::
  "rounding \<Rightarrow> allocator \<Rightarrow> int \<Rightarrow> int \<Rightarrow> Boundary_Op
     \<Rightarrow> (Resample_Real \<Rightarrow> Resample_Real option)
     \<Rightarrow> Resample_Real \<Rightarrow> Resample_Real \<Rightarrow> Resample_Real \<Rightarrow> Contrib_List list outcome" where
  "make_clist fl alloc src_w dst_w boundary_op Pfilter filter_support filter_scale src_ofs =
     fst (make_clist_heap fl alloc src_w dst_w boundary_op Pfilter filter_support filter_scale
            src_ofs)"

section \<open>Filter kernels\<close>

text \<open>
  The kernels compute in \<open>Resample_Real\<close> (rounding \<open>fl\<close>) and, for the windowed ones, in
  \<open>double\<close> (rounding \<open>dbl\<close>). The functions of the C library are modelled by the
  mathematical functions, rounded.
\<close>

definition box_filter :: "Resample_Real \<Rightarrow> Resample_Real" where
  "box_filter t = (if - (1 / 2) \<le> t \<and> t < 1 / 2 then 1 else 0)"

definition tent_filter :: "rounding \<Rightarrow> Resample_Real \<Rightarrow> Resample_Real" where
  "tent_filter fl t =
     (let t = (if t < 0 then - t else t)
      in if t < 1 then fl (1 - t) else 0)"

definition bell_filter :: "rounding \<Rightarrow> Resample_Real \<Rightarrow> Resample_Real" where
  "bell_filter fl t =
     (let t = (if t < 0 then - t else t)
      in if t < 1 / 2 then fl (3 / 4 - fl (t * t))
         else if t < 3 / 2 then (let t = fl (t - 3 / 2) in fl (1 / 2 * fl (t * t)))
         else 0)"

definition B_spline_filter :: "rounding \<Rightarrow> Resample_Real \<Rightarrow> Resample_Real" where
  "B_spline_filter fl t =
     (let t = (if t < 0 then - t else t)
      in if t < 1 then
           (let tt = fl (t * t) in fl (fl (fl (fl (1 / 2 * tt) * t) - tt) + fl (2 / 3)))
         else if t < 2 then
           (let t = fl (2 - t) in fl (fl (1 / 6) * fl (fl (t * t) * t)))
         else 0)"

definition QUADRATIC_SUPPORT :: Resample_Real where
  "QUADRATIC_SUPPORT = 3 / 2"

definition quadratic :: "rounding \<Rightarrow> Resample_Real \<Rightarrow> Resample_Real \<Rightarrow> Resample_Real" where
  "quadratic fl t R =
     (let t = (if t < 0 then - t else t)
      in if t < QUADRATIC_SUPPORT then
           (let tt = fl (t * t)
            in if t \<le> 1 / 2 then fl (fl (fl (- 2 * R) * tt) + fl (1 / 2 * fl (R + 1)))
               else fl (fl (fl (R * tt) + fl (fl (fl (- 2 * R) - 1 / 2) * t))
                        + fl (fl (3 / 4) * fl (R + 1))))
         else 0)"

definition quadratic_interp_filter :: "rounding \<Rightarrow> Resample_Real \<Rightarrow> Resample_Real" where
  "quadratic_interp_filter fl t = quadratic fl t 1"

definition quadratic_approx_filter :: "rounding \<Rightarrow> Resample_Real \<Rightarrow> Resample_Real" where
  "quadratic_approx_filter fl t = quadratic fl t (1 / 2)"

definition quadratic_mix_filter :: "rounding \<Rightarrow> Resample_Real \<Rightarrow> Resample_Real" where
  "quadratic_mix_filter fl t = quadratic fl t (fl (8 / 10))"

definition mitchell :: "rounding \<Rightarrow> Resample_Real \<Rightarrow> Resample_Real \<Rightarrow> Resample_Real \<Rightarrow> Resample_Real" where
  "mitchell fl t B C =
     (let tt = fl (t * t);
          t = (if t < 0 then - t else t)
      in if t < 1 then
           (let t = fl (fl (fl (fl (fl (12 - fl (9 * B)) - fl (6 * C)) * fl (t * tt))
                            + fl (fl (fl (- 18 + fl (12 * B)) + fl (6 * C)) * tt))
                        + fl (6 - fl (2 * B)))
            in fl (t / 6))
         else if t < 2 then
           (let t = fl (fl (fl (fl (fl (fl (- 1 * B) - fl (6 * C)) * fl (t * tt))
                                + fl (fl (fl (6 * B) + fl (30 * C)) * tt))
                            + fl (fl (fl (- 12 * B) - fl (48 * C)) * t))
                        + fl (fl (8 * B) + fl (24 * C)))
            in fl (t / 6))
         else 0)"

definition mitchell_filter :: "rounding \<Rightarrow> Resample_Real \<Rightarrow> Resample_Real" where
  "mitchell_filter fl t = mitchell fl t (fl (1 / 3)) (fl (1 / 3))"

definition catmull_rom_filter :: "rounding \<Rightarrow> Resample_Real \<Rightarrow> Resample_Real" where
  "catmull_rom_filter fl t = mitchell fl t 0 (1 / 2)"

definition M_PI :: "rounding \<Rightarrow> real" where
  "M_PI dbl = dbl (314159265358979323846 / 10 ^ 20)"

definition sinc :: "rounding \<Rightarrow> rounding \<Rightarrow> real \<Rightarrow> real" where
  "sinc fl dbl x =
     (let x = dbl (x * M_PI dbl)
      in if x < fl (1 / 100) \<and> - fl (1 / 100) < x then
           dbl (1 + dbl (dbl (x * x)
                  * dbl (fl (- 1 / 6) + dbl (dbl (dbl (x * x) * 1) / 120))))
         else dbl (dbl (sin x) / x))"

definition clean :: "rounding \<Rightarrow> real \<Rightarrow> Resample_Real" where
  "clean fl t =
     (let EPSILON = fl (125 / 10 ^ 7)
      in if \<bar>t\<bar> < EPSILON then 0 else fl t)"

definition blackman_exact_window :: "rounding \<Rightarrow> rounding \<Rightarrow> real \<Rightarrow> real" where
  "blackman_exact_window fl dbl x =
     dbl (dbl (fl (42659071 / 10 ^ 8)
               + dbl (fl (49656062 / 10 ^ 8) * dbl (cos (dbl (M_PI dbl * x)))))
          + dbl (fl (7684867 / 10 ^ 8) * dbl (cos (dbl (dbl (2 * M_PI dbl) * x)))))"

definition blackman_filter :: "rounding \<Rightarrow> rounding \<Rightarrow> Resample_Real \<Rightarrow> Resample_Real" where
  "blackman_filter fl dbl t =
     (let t = (if t < 0 then - t else t)
      in if t < 3 then
           clean fl (dbl (sinc fl dbl t * blackman_exact_window fl dbl (fl (t / 3))))
         else 0)"

definition GAUSSIAN_SUPPORT :: Resample_Real where
  "GAUSSIAN_SUPPORT = 5 / 4"

definition gaussian_filter :: "rounding \<Rightarrow> rounding \<Rightarrow> Resample_Real \<Rightarrow> Resample_Real" where
  "gaussian_filter fl dbl t =
     (let t = (if t < 0 then - t else t)
      in if t < GAUSSIAN_SUPPORT then
           clean fl (dbl (dbl (dbl (exp (fl (fl (- 2 * t) * t)))
                               * dbl (sqrt (dbl (2 / M_PI dbl))))
                          * blackman_exact_window fl dbl (fl (t / GAUSSIAN_SUPPORT))))
         else 0)"

definition lanczos3_filter :: "rounding \<Rightarrow> rounding \<Rightarrow> Resample_Real \<Rightarrow> Resample_Real" where
  "lanczos3_filter fl dbl t =
     (let t = (if t < 0 then - t else t)
      in if t < 3 then clean fl (dbl (sinc fl dbl t * sinc fl dbl (fl (t / 3)))) else 0)"

definition lanczos4_filter :: "rounding \<Rightarrow> rounding \<Rightarrow> Resample_Real \<Rightarrow> Resample_Real" where
  "lanczos4_filter fl dbl t =
     (let t = (if t < 0 then - t else t)
      in if t < 4 then clean fl (dbl (sinc fl dbl t * sinc fl dbl (fl (t / 4)))) else 0)"

definition lanczos6_filter :: "rounding \<Rightarrow> rounding \<Rightarrow> Resample_Real \<Rightarrow> Resample_Real" where
  "lanczos6_filter fl dbl t =
     (let t = (if t < 0 then - t else t)
      in if t < 6 then clean fl (dbl (sinc fl dbl t * sinc fl dbl (fl (t / 6)))) else 0)"

definition lanczos12_filter :: "rounding \<Rightarrow> rounding \<Rightarrow> Resample_Real \<Rightarrow> Resample_Real" where
  "lanczos12_filter fl dbl t =
     (let t = (if t < 0 then - t else t)
      in if t < 12 then clean fl (dbl (sinc fl dbl t * sinc fl dbl (fl (t / 12)))) else 0)"

text \<open>
  The series of \<open>bessel0\<close> stops when a term is small against the sum; the source itself
  asks whether it should stop after a fixed number of rounds. \<open>None\<close>: it never stops.
\<close>

partial_function (option) bessel0_loop ::
  "rounding \<Rightarrow> real \<Rightarrow> int \<Rightarrow> real \<Rightarrow> real \<Rightarrow> real \<Rightarrow> real option" where
  "bessel0_loop dbl xh k pow0 ds sum0 =
     (if dbl (sum0 * dbl (1 / 10 ^ 16)) < ds then
        (let k = k + 1;
             pow0 = dbl (pow0 * dbl (xh / of_int k));
             ds = dbl (pow0 * pow0);
             sum0 = dbl (sum0 + ds)
         in bessel0_loop dbl xh k pow0 ds sum0)
      else Some sum0)"

definition bessel0 :: "rounding \<Rightarrow> real \<Rightarrow> real option" where
  "bessel0 dbl x = bessel0_loop dbl (dbl (1 / 2 * x)) 0 1 1 1"

definition kaiser :: "rounding \<Rightarrow> real \<Rightarrow> real \<Rightarrow> real \<Rightarrow> real option" where
  "kaiser dbl alpha half_width x =
     (let ratio = dbl (x / half_width)
      in case bessel0 dbl (dbl (alpha * dbl (sqrt (dbl (1 - dbl (ratio * ratio)))))) of
           None \<Rightarrow> None
         | Some a \<Rightarrow>
             (case bessel0 dbl alpha of None \<Rightarrow> None | Some b \<Rightarrow> Some (dbl (a / b))))"

definition KAISER_SUPPORT :: Resample_Real where
  "KAISER_SUPPORT = 3"

definition kaiser_filter :: "rounding \<Rightarrow> rounding \<Rightarrow> Resample_Real \<Rightarrow> Resample_Real option" where
  "kaiser_filter fl dbl t =
     (let t = (if t < 0 then - t else t)
      in if t < KAISER_SUPPORT then
           (let att = 40;
                alpha = fl (dbl (dbl (exp (dbl (dbl (ln (dbl (dbl (58417 / 10 ^ 5)
                                                           * dbl (att - dbl (2096 / 100)))))
                                                * dbl (4 / 10))))
                                 + dbl (dbl (7886 / 10 ^ 5) * dbl (att - dbl (2096 / 100)))))
            in case kaiser dbl alpha KAISER_SUPPORT t of
                 None \<Rightarrow> None
               | Some k \<Rightarrow> Some (clean fl (dbl (sinc fl dbl t * k))))
         else Some 0)"

text \<open>\<open>g_filters\<close>: the name, the function and the support of every filter.\<close>

record filter_entry =
  name :: string
  func :: "Resample_Real \<Rightarrow> Resample_Real option"
  support :: Resample_Real

definition g_filters :: "rounding \<Rightarrow> rounding \<Rightarrow> filter_entry list" where
  "g_filters fl dbl =
     [\<lparr>name = ''box'', func = Some \<circ> box_filter, support = 1 / 2\<rparr>,
      \<lparr>name = ''tent'', func = Some \<circ> tent_filter fl, support = 1\<rparr>,
      \<lparr>name = ''bell'', func = Some \<circ> bell_filter fl, support = 3 / 2\<rparr>,
      \<lparr>name = ''b-spline'', func = Some \<circ> B_spline_filter fl, support = 2\<rparr>,
      \<lparr>name = ''mitchell'', func = Some \<circ> mitchell_filter fl, support = 2\<rparr>,
      \<lparr>name = ''lanczos3'', func = Some \<circ> lanczos3_filter fl dbl, support = 3\<rparr>,
      \<lparr>name = ''blackman'', func = Some \<circ> blackman_filter fl dbl, support = 3\<rparr>,
      \<lparr>name = ''lanczos4'', func = Some \<circ> lanczos4_filter fl dbl, support = 4\<rparr>,
      \<lparr>name = ''lanczos6'', func = Some \<circ> lanczos6_filter fl dbl, support = 6\<rparr>,
      \<lparr>name = ''lanczos12'', func = Some \<circ> lanczos12_filter fl dbl, support = 12\<rparr>,
      \<lparr>name = ''kaiser'', func = kaiser_filter fl dbl, support = KAISER_SUPPORT\<rparr>,
      \<lparr>name = ''gaussian'', func = Some \<circ> gaussian_filter fl dbl, support = GAUSSIAN_SUPPORT\<rparr>,
      \<lparr>name = ''catmullrom'', func = Some \<circ> catmull_rom_filter fl, support = 2\<rparr>,
      \<lparr>name = ''quadratic_interp'', func = Some \<circ> quadratic_interp_filter fl,
         support = QUADRATIC_SUPPORT\<rparr>,
      \<lparr>name = ''quadratic_approx'', func = Some \<circ> quadratic_approx_filter fl,
         support = QUADRATIC_SUPPORT\<rparr>,
      \<lparr>name = ''quadratic_mix'', func = Some \<circ> quadratic_mix_filter fl,
         support = QUADRATIC_SUPPORT\<rparr>]"

definition NUM_FILTERS :: int where
  "NUM_FILTERS = int (length (g_filters (\<lambda>x. x) (\<lambda>x. x)))"

section \<open>The streaming engine\<close>

text \<open>
  A pointer is an \<open>option\<close> (\<open>None\<close> is \<open>NULL\<close>), an array the list of its elements. An
  operation of the engine returns \<open>None\<close> when the execution has no defined result: a
  failed \<open>assert\<close>, a \<open>NULL\<close> pointer followed, or an array read or written outside its
  bounds.
\<close>

type_synonym Sample = Resample_Real

datatype Status =
  STATUS_OKAY | STATUS_OUT_OF_MEMORY | STATUS_BAD_FILTER_NAME | STATUS_SCAN_BUFFER_FULL

record Scan_Buf =
  scan_buf_y :: "int list"
  scan_buf_l :: "Sample list option list"

record Resampler =
  m_resample_src_w :: int
  m_resample_src_h :: int
  m_resample_dst_w :: int
  m_resample_dst_h :: int
  m_boundary_op :: Boundary_Op
  m_dst_subrect_beg_x :: int
  m_dst_subrect_end_x :: int
  m_dst_subrect_beg_y :: int
  m_dst_subrect_end_y :: int
  m_Pdst_buf :: "Sample list option"
  m_Ptmp_buf :: "Sample list option"
  m_Pclist_x :: "Contrib_List list option"
  m_Pclist_y :: "Contrib_List list option"
  m_clist_x_forced :: bool
  m_clist_y_forced :: bool
  m_delay_x_resample :: bool
  m_Psrc_y_count :: "int list option"
  m_Psrc_y_flag :: "bool list option"
  m_Pscan_buf :: "Scan_Buf option"
  m_cur_src_y :: int
  m_cur_dst_y :: int
  m_status :: Status
  m_intermediate_x :: int
  m_lo :: Resample_Real
  m_hi :: Resample_Real

definition resampler_range_check :: "int \<Rightarrow> int \<Rightarrow> nat option" where
  "resampler_range_check v h = (if 0 \<le> v \<and> v < h then Some (nat v) else None)"

definition read_at :: "'a list \<Rightarrow> nat \<Rightarrow> 'a option" where
  "read_at xs i = (if i < length xs then Some (xs ! i) else None)"

definition write_at :: "'a list \<Rightarrow> nat \<Rightarrow> 'a \<Rightarrow> 'a list option" where
  "write_at xs i v = (if i < length xs then Some (xs[i := v]) else None)"

text \<open>The inner loop of \<open>resample_x\<close>: one destination sample.\<close>

fun resample_x_total :: "rounding \<Rightarrow> Sample list \<Rightarrow> Contrib list \<Rightarrow> Sample \<Rightarrow> Sample option" where
  "resample_x_total fl Psrc [] tot = Some tot"
| "resample_x_total fl Psrc (c # cs) tot =
     do {
       x \<leftarrow> read_at Psrc (unat (pixel c));
       resample_x_total fl Psrc cs (fl (tot + fl (x * weight c)))
     }"

fun resample_x_lists :: "rounding \<Rightarrow> Sample list \<Rightarrow> Contrib_List list \<Rightarrow> Sample list option" where
  "resample_x_lists fl Psrc [] = Some []"
| "resample_x_lists fl Psrc (l # ls) =
     do {
       tot \<leftarrow> resample_x_total fl Psrc l 0;
       rest \<leftarrow> resample_x_lists fl Psrc ls;
       Some (tot # rest)
     }"

text \<open>
  \<open>Resampler::resample_x\<close> writes one sample for each list from \<open>m_dst_subrect_beg_x\<close> up to
  \<open>m_dst_subrect_end_x - 1\<close>; the result replaces the first samples of \<open>Pdst\<close>.
\<close>

definition resample_x :: "rounding \<Rightarrow> Resampler \<Rightarrow> Sample list \<Rightarrow> Sample list \<Rightarrow> Sample list option" where
  "resample_x fl s Pdst Psrc =
     do {
       clist \<leftarrow> m_Pclist_x s;
       let n = nat (m_dst_subrect_end_x s - m_dst_subrect_beg_x s);
       if n = 0 then Some Pdst
       else if m_dst_subrect_beg_x s < 0 \<or> int (length clist) < m_dst_subrect_end_x s
              \<or> length Pdst < n
         then None
         else do {
           out \<leftarrow> resample_x_lists fl Psrc (take n (drop (nat (m_dst_subrect_beg_x s)) clist));
           Some (out @ drop n Pdst)
         }
     }"

definition scale_y_mov :: "rounding \<Rightarrow> Sample list \<Rightarrow> Sample list \<Rightarrow> Resample_Real \<Rightarrow> int \<Rightarrow> Sample list option" where
  "scale_y_mov fl Ptmp Psrc w dst_w =
     (let n = nat dst_w
      in if length Ptmp < n \<or> length Psrc < n then None
         else Some (map (\<lambda>x. fl (x * w)) (take n Psrc) @ drop n Ptmp))"

definition scale_y_add :: "rounding \<Rightarrow> Sample list \<Rightarrow> Sample list \<Rightarrow> Resample_Real \<Rightarrow> int \<Rightarrow> Sample list option" where
  "scale_y_add fl Ptmp Psrc w dst_w =
     (let n = nat dst_w
      in if length Ptmp < n \<or> length Psrc < n then None
         else Some (map (\<lambda>(t, x). fl (t + fl (x * w))) (zip (take n Ptmp) (take n Psrc))
                    @ drop n Ptmp))"

text \<open>
  Modelled from the spec: \<open>clamp_sample\<close> is declared in \<open>resampler.h\<close>, which is not part
  of the sources; a value outside the range is clipped to the nearest bound.
\<close>

definition clamp_sample :: "Resample_Real \<Rightarrow> Resample_Real \<Rightarrow> Resample_Real \<Rightarrow> Resample_Real" where
  "clamp_sample f lo hi = (if f < lo then lo else if hi < f then hi else f)"

definition clamp :: "Sample list \<Rightarrow> int \<Rightarrow> Resample_Real \<Rightarrow> Resample_Real \<Rightarrow> Sample list option" where
  "clamp Pdst n lo hi =
     (if int (length Pdst) < n then None
      else Some (map (\<lambda>x. clamp_sample x lo hi) (take (nat n) Pdst) @ drop (nat n) Pdst))"

text \<open>
  The search loops over the scan buffer: the first slot holding \<open>v\<close>, or the number of
  slots (\<open>MAX_SCAN_BUF_SIZE\<close>, the length of the two arrays) when there is none.
\<close>

primrec find_slot :: "int \<Rightarrow> int list \<Rightarrow> nat" where
  "find_slot v [] = 0"
| "find_slot v (y # ys) = (if y = v then 0 else Suc (find_slot v ys))"

text \<open>
  The body of the loop of \<open>resample_y\<close>, for the contributor \<open>c\<close> at position \<open>i\<close> of the
  list of the pending destination line; \<open>Ptmp\<close> is the buffer being accumulated.
\<close>

definition resample_y_step ::
  "rounding \<Rightarrow> Contrib \<Rightarrow> nat \<Rightarrow> Sample list \<Rightarrow> Resampler \<Rightarrow> (Sample list \<times> Resampler) option" where
  "resample_y_step fl c i Ptmp s =
     do {
       sb \<leftarrow> m_Pscan_buf s;
       let j = find_slot (uint (pixel c)) (scan_buf_y sb);
       if \<not> j < length (scan_buf_y sb) then None
       else do {
         line \<leftarrow> read_at (scan_buf_l sb) j;
         Psrc \<leftarrow> line;
         Ptmp \<leftarrow> (if i = 0 then scale_y_mov fl Ptmp Psrc (weight c) (m_intermediate_x s)
                   else scale_y_add fl Ptmp Psrc (weight c) (m_intermediate_x s));
         y \<leftarrow> resampler_range_check (uint (pixel c)) (m_resample_src_h s);
         count \<leftarrow> m_Psrc_y_count s;
         n \<leftarrow> read_at count y;
         let s = s\<lparr>m_Psrc_y_count := Some (count[y := n - 1])\<rparr>;
         if n - 1 = 0 then
           do {
             flag \<leftarrow> m_Psrc_y_flag s;
             flag \<leftarrow> write_at flag y False;
             Some (Ptmp, s\<lparr>m_Psrc_y_flag := Some flag,
                           m_Pscan_buf := Some (sb\<lparr>scan_buf_y := (scan_buf_y sb)[j := - 1]\<rparr>)\<rparr>)
           }
         else Some (Ptmp, s)
       }
     }"

fun resample_y_loop ::
  "rounding \<Rightarrow> Contrib list \<Rightarrow> nat \<Rightarrow> Sample list \<Rightarrow> Resampler \<Rightarrow> (Sample list \<times> Resampler) option" where
  "resample_y_loop fl [] i Ptmp s = Some (Ptmp, s)"
| "resample_y_loop fl (c # cs) i Ptmp s =
     do {
       (Ptmp, s) \<leftarrow> resample_y_step fl c i Ptmp s;
       resample_y_loop fl cs (Suc i) Ptmp s
     }"

text \<open>
  The end of \<open>resample_y\<close>, which generates the destination line from the accumulated
  buffer: the X resampling when it was delayed, then the clamp.
\<close>

definition generate_line :: "rounding \<Rightarrow> Resampler \<Rightarrow> Sample list \<Rightarrow> Sample list \<Rightarrow> Resampler option" where
  "generate_line fl s Pdst Ptmp =
     do {
       Pdst \<leftarrow> (if m_delay_x_resample s then resample_x fl s Pdst Ptmp else Some Ptmp);
       Pdst \<leftarrow> (if m_lo s < m_hi s
                 then clamp Pdst (m_dst_subrect_end_x s - m_dst_subrect_beg_x s) (m_lo s) (m_hi s)
                 else Some Pdst);
       Some (if m_delay_x_resample s
             then s\<lparr>m_Ptmp_buf := Some Ptmp, m_Pdst_buf := Some Pdst\<rparr>
             else s\<lparr>m_Pdst_buf := Some Pdst\<rparr>)
     }"

text \<open>\<open>Resampler::resample_y\<close>, called with \<open>Pdst = m_Pdst_buf\<close>.\<close>

definition resample_y :: "rounding \<Rightarrow> Resampler \<Rightarrow> Resampler option" where
  "resample_y fl s =
     do {
       clist \<leftarrow> m_Pclist_y s;
       Pclist \<leftarrow> (if 0 \<le> m_cur_dst_y s then read_at clist (nat (m_cur_dst_y s)) else None);
       Pdst \<leftarrow> m_Pdst_buf s;
       Ptmp \<leftarrow> (if m_delay_x_resample s then m_Ptmp_buf s else Some Pdst);
       (Ptmp, s) \<leftarrow> resample_y_loop fl Pclist 0 Ptmp s;
       generate_line fl s Pdst Ptmp
     }"

text \<open>
  \<open>Resampler::put_line\<close>. \<open>malloc_ok\<close> tells whether the allocation of a scan line, when
  the slot has none yet, succeeds. The result is the returned flag and the new state.
\<close>

definition put_line :: "rounding \<Rightarrow> bool \<Rightarrow> Resampler \<Rightarrow> Sample list \<Rightarrow> (bool \<times> Resampler) option" where
  "put_line fl malloc_ok s Psrc =
     (if m_resample_src_h s \<le> m_cur_src_y s then Some (False, s)
      else do {
        y \<leftarrow> resampler_range_check (m_cur_src_y s) (m_resample_src_h s);
        count \<leftarrow> m_Psrc_y_count s;
        n \<leftarrow> read_at count y;
        if n = 0 then Some (True, s\<lparr>m_cur_src_y := m_cur_src_y s + 1\<rparr>)
        else do {
          sb \<leftarrow> m_Pscan_buf s;
          let i = find_slot (- 1) (scan_buf_y sb);
          if i = length (scan_buf_y sb)
            then Some (False, s\<lparr>m_status := STATUS_SCAN_BUFFER_FULL\<rparr>)
          else do {
            flag \<leftarrow> m_Psrc_y_flag s;
            flag \<leftarrow> write_at flag y True;
            line \<leftarrow> read_at (scan_buf_l sb) i;
            let sb = sb\<lparr>scan_buf_y := (scan_buf_y sb)[i := m_cur_src_y s]\<rparr>;
            let s = s\<lparr>m_Psrc_y_flag := Some flag, m_Pscan_buf := Some sb\<rparr>;
            if line = None \<and> \<not> malloc_ok
              then Some (False, s\<lparr>m_status := STATUS_OUT_OF_MEMORY\<rparr>)
            else do {
              let buf = (case line of Some l \<Rightarrow> l
                         | None \<Rightarrow> replicate (nat (m_intermediate_x s)) 0);
              buf \<leftarrow> (if m_delay_x_resample s then
                        (if m_intermediate_x s \<noteq> m_resample_src_w s
                            \<or> int (length Psrc) < m_intermediate_x s then None
                         else Some (take (nat (m_intermediate_x s)) Psrc
                                    @ drop (nat (m_intermediate_x s)) buf))
                      else
                        (if m_intermediate_x s \<noteq> m_dst_subrect_end_x s - m_dst_subrect_beg_x s
                         then None
                         else resample_x fl s buf Psrc));
              let sb = sb\<lparr>scan_buf_l := (scan_buf_l sb)[i := Some buf]\<rparr>;
              Some (True, s\<lparr>m_Pscan_buf := Some sb, m_cur_src_y := m_cur_src_y s + 1\<rparr>)
            }
          }
        }
      })"

text \<open>The check of \<open>get_line\<close> that every contributor of the pending line is present.\<close>

fun contributors_present :: "Resampler \<Rightarrow> Contrib list \<Rightarrow> bool option" where
  "contributors_present s [] = Some True"
| "contributors_present s (c # cs) =
     do {
       y \<leftarrow> resampler_range_check (uint (pixel c)) (m_resample_src_h s);
       flag \<leftarrow> m_Psrc_y_flag s;
       f \<leftarrow> read_at flag y;
       if \<not> f then Some False else contributors_present s cs
     }"

text \<open>
  \<open>Resampler::get_line\<close>: the returned pointer (\<open>None\<close> is \<open>NULL\<close>, otherwise the contents of
  \<open>m_Pdst_buf\<close>) and the new state.
\<close>

definition get_line :: "rounding \<Rightarrow> Resampler \<Rightarrow> (Sample list option \<times> Resampler) option" where
  "get_line fl s =
     (if m_cur_dst_y s = m_dst_subrect_end_y s then Some (None, s)
      else do {
        clist \<leftarrow> m_Pclist_y s;
        Pclist \<leftarrow> (if 0 \<le> m_cur_dst_y s then read_at clist (nat (m_cur_dst_y s)) else None);
        ok \<leftarrow> contributors_present s Pclist;
        if \<not> ok then Some (None, s)
        else do {
          s \<leftarrow> resample_y fl s;
          let s = s\<lparr>m_cur_dst_y := m_cur_dst_y s + 1\<rparr>;
          Some (m_Pdst_buf s, s)
        }
      })"

section \<open>Construction\<close>

text \<open>
  What the constructor takes from \<open>resampler.h\<close>, which is not part of the sources, is a
  parameter of the model: the number of slots of the scan buffer, the name of the default
  filter and the function \<open>count_ops\<close>.
\<close>

record header =
  MAX_SCAN_BUF_SIZE :: nat
  RESAMPLER_DEFAULT_FILTER :: string
  count_ops :: "Contrib_List list \<Rightarrow> int \<Rightarrow> int"

text \<open>
  The environment of a construction: which allocations succeed, and the value found in
  the cells of a fresh \<open>malloc\<close> block.
\<close>

record environment =
  alloc :: allocator
  junk :: Sample

record arguments =
  arg_src_w :: int
  arg_src_h :: int
  arg_dst_w :: int
  arg_dst_h :: int
  arg_boundary_op :: Boundary_Op
  arg_sample_low :: Resample_Real
  arg_sample_high :: Resample_Real
  arg_Pfilter_name :: "string option"
  arg_Pclist_x :: "Contrib_List list option"
  arg_Pclist_y :: "Contrib_List list option"
  arg_filter_x_scale :: Resample_Real
  arg_filter_y_scale :: Resample_Real
  arg_src_x_ofs :: Resample_Real
  arg_src_y_ofs :: Resample_Real
  arg_dst_subrect_x :: "32 word"
  arg_dst_subrect_y :: "32 word"
  arg_dst_subrect_w :: "32 word"
  arg_dst_subrect_h :: "32 word"

text \<open>
  The loop that counts how many times each source line contributes to a destination
  line, over the first \<open>m_resample_dst_h\<close> lists of the Y table.
\<close>

fun count_contribs :: "int \<Rightarrow> Contrib list \<Rightarrow> int list \<Rightarrow> int list option" where
  "count_contribs h [] count = Some count"
| "count_contribs h (c # cs) count =
     do {
       y \<leftarrow> resampler_range_check (uint (pixel c)) h;
       n \<leftarrow> read_at count y;
       count_contribs h cs (count[y := n + 1])
     }"

fun count_lines :: "int \<Rightarrow> Contrib_List list \<Rightarrow> int list \<Rightarrow> int list option" where
  "count_lines h [] count = Some count"
| "count_lines h (l # ls) count =
     do {
       count \<leftarrow> count_contribs h l count;
       count_lines h ls count
     }"

text \<open>The tail of the constructor, once both tables are in place.\<close>

definition finish_construction :: "header \<Rightarrow> environment \<Rightarrow> Resampler \<Rightarrow> Resampler outcome" where
  "finish_construction hdr env s =
     (if \<not> alloc env ''m_Psrc_y_count'' then Built (s\<lparr>m_status := STATUS_OUT_OF_MEMORY\<rparr>)
      else
        let s = s\<lparr>m_Psrc_y_count := Some (replicate (nat (m_resample_src_h s)) 0)\<rparr>
        in if \<not> alloc env ''m_Psrc_y_flag'' then Built (s\<lparr>m_status := STATUS_OUT_OF_MEMORY\<rparr>)
           else
             let s = s\<lparr>m_Psrc_y_flag := Some (replicate (nat (m_resample_src_h s)) False)\<rparr>;
                 clist_y = the (m_Pclist_y s)
             in if int (length clist_y) < m_resample_dst_h s then Undefined
                else case count_lines (m_resample_src_h s)
                            (take (nat (m_resample_dst_h s)) clist_y)
                            (replicate (nat (m_resample_src_h s)) 0) of
                  None \<Rightarrow> Undefined
                | Some count \<Rightarrow>
                    let s = s\<lparr>m_Psrc_y_count := Some count\<rparr>
                    in if \<not> alloc env ''m_Pscan_buf''
                       then Built (s\<lparr>m_status := STATUS_OUT_OF_MEMORY\<rparr>)
                       else
                         let s = s\<lparr>m_Pscan_buf := Some
                                   \<lparr>scan_buf_y = replicate (MAX_SCAN_BUF_SIZE hdr) (- 1),
                                    scan_buf_l = replicate (MAX_SCAN_BUF_SIZE hdr) None\<rparr>,
                                  m_cur_src_y := 0,
                                  m_cur_dst_y := m_dst_subrect_beg_y s\<rparr>;
                             x_ops = count_ops hdr (the (m_Pclist_x s)) (m_resample_dst_w s);
                             y_ops = count_ops hdr (the (m_Pclist_y s)) (m_resample_dst_h s);
                             xy_ops = x_ops * m_resample_src_h s
                                      + c_div (4 * y_ops * m_resample_dst_w s) 3;
                             yx_ops = c_div (4 * y_ops * m_resample_src_w s) 3
                                      + x_ops * m_resample_dst_h s;
                             s = (if yx_ops < xy_ops
                                     \<or> (xy_ops = yx_ops \<and> m_resample_src_w s < m_resample_dst_w s)
                                  then s\<lparr>m_delay_x_resample := True,
                                         m_intermediate_x := m_resample_src_w s\<rparr>
                                  else s\<lparr>m_delay_x_resample := False,
                                         m_intermediate_x :=
                                           m_dst_subrect_end_x s - m_dst_subrect_beg_x s\<rparr>)
                         in if m_delay_x_resample s then
                              (if \<not> alloc env ''m_Ptmp_buf''
                               then Built (s\<lparr>m_status := STATUS_OUT_OF_MEMORY\<rparr>)
                               else Built (s\<lparr>m_Ptmp_buf := Some
                                      (replicate (nat (m_intermediate_x s)) (junk env))\<rparr>))
                            else Built s)"

text \<open>
  \<open>Resampler::Resampler\<close>. \<open>this\<close> is the object before the constructor runs: a member
  that a path does not assign keeps its value. The sub-rectangle test is the source's,
  in \<open>unsigned int\<close> arithmetic; the conversions between \<open>int\<close> and \<open>unsigned int\<close> are
  those of two's complement.
\<close>

definition Resampler_new ::
  "rounding \<Rightarrow> rounding \<Rightarrow> header \<Rightarrow> environment \<Rightarrow> Resampler \<Rightarrow> arguments \<Rightarrow> Resampler outcome" where
  "Resampler_new fl dbl hdr env this a =
     (if \<not> (0 < arg_src_w a \<and> 0 < arg_src_h a \<and> 0 < arg_dst_w a \<and> 0 < arg_dst_h a)
      then Undefined
      else
        let s = this\<lparr>m_lo := arg_sample_low a, m_hi := arg_sample_high a,
                  m_delay_x_resample := False, m_intermediate_x := 0,
                  m_Pdst_buf := None, m_Ptmp_buf := None,
                  m_clist_x_forced := False, m_Pclist_x := None,
                  m_clist_y_forced := False, m_Pclist_y := None,
                  m_Psrc_y_count := None, m_Psrc_y_flag := None, m_Pscan_buf := None,
                  m_status := STATUS_OKAY,
                  m_resample_src_w := arg_src_w a, m_resample_src_h := arg_src_h a,
                  m_resample_dst_w := arg_dst_w a, m_resample_dst_h := arg_dst_h a,
                  m_dst_subrect_beg_x := 0, m_dst_subrect_end_x := arg_dst_w a,
                  m_dst_subrect_beg_y := 0, m_dst_subrect_end_y := arg_dst_h a\<rparr>;
            s = (if 0 < arg_dst_subrect_w a \<and> 0 < arg_dst_subrect_h a
                    \<and> arg_dst_subrect_x a + arg_dst_subrect_w a \<le> word_of_int (arg_dst_w a)
                    \<and> arg_dst_subrect_y a + arg_dst_subrect_h a \<le> word_of_int (arg_dst_h a)
                 then s\<lparr>m_dst_subrect_beg_x := sint (arg_dst_subrect_x a),
                        m_dst_subrect_end_x := sint (arg_dst_subrect_x a + arg_dst_subrect_w a),
                        m_dst_subrect_beg_y := sint (arg_dst_subrect_y a),
                        m_dst_subrect_end_y := sint (arg_dst_subrect_y a + arg_dst_subrect_h a)\<rparr>
                 else s);
            s = s\<lparr>m_boundary_op := arg_boundary_op a\<rparr>
        in if \<not> alloc env ''m_Pdst_buf'' then Built (s\<lparr>m_status := STATUS_OUT_OF_MEMORY\<rparr>)
           else
             let s = s\<lparr>m_Pdst_buf := Some
                       (replicate (nat (m_dst_subrect_end_x s - m_dst_subrect_beg_x s)) (junk env))\<rparr>;
                 Pfilter_name = (case arg_Pfilter_name a of
                                   None \<Rightarrow> RESAMPLER_DEFAULT_FILTER hdr | Some nm \<Rightarrow> nm)
             in case find (\<lambda>e. name e = Pfilter_name) (g_filters fl dbl) of
                  None \<Rightarrow> Built (s\<lparr>m_status := STATUS_BAD_FILTER_NAME\<rparr>)
                | Some e \<Rightarrow>
                    (case (case arg_Pclist_x a of
                             None \<Rightarrow>
                               (case make_clist fl (\<lambda>v. alloc env (''m_Pclist_x.'' @ v))
                                       (m_resample_src_w s) (m_resample_dst_w s) (m_boundary_op s)
                                       (func e) (support e) (arg_filter_x_scale a) (arg_src_x_ofs a) of
                                  Built t \<Rightarrow> Built (s\<lparr>m_Pclist_x := Some t\<rparr>)
                                | Null \<Rightarrow> Null
                                | Undefined \<Rightarrow> Undefined
                                | Non_finite \<Rightarrow> Non_finite
                                | No_return \<Rightarrow> No_return)
                           | Some t \<Rightarrow> Built (s\<lparr>m_Pclist_x := Some t, m_clist_x_forced := True\<rparr>)) of
                       Null \<Rightarrow> Built (s\<lparr>m_status := STATUS_OUT_OF_MEMORY\<rparr>)
                     | Undefined \<Rightarrow> Undefined
                     | Non_finite \<Rightarrow> Non_finite
                     | No_return \<Rightarrow> No_return
                     | Built s \<Rightarrow>
                         (case (case arg_Pclist_y a of
                                  None \<Rightarrow>
                                    (case make_clist fl (\<lambda>v. alloc env (''m_Pclist_y.'' @ v))
                                            (m_resample_src_h s) (m_resample_dst_h s) (m_boundary_op s)
                                            (func e) (support e) (arg_filter_y_scale a)
                                            (arg_src_y_ofs a) of
                                       Built t \<Rightarrow> Built (s\<lparr>m_Pclist_y := Some t\<rparr>)
                                     | Null \<Rightarrow> Null
                                     | Undefined \<Rightarrow> Undefined
                                     | Non_finite \<Rightarrow> Non_finite
                                     | No_return \<Rightarrow> No_return)
                                | Some t \<Rightarrow>
                                    Built (s\<lparr>m_Pclist_y := Some t, m_clist_y_forced := True\<rparr>)) of
                            Null \<Rightarrow> Built (s\<lparr>m_status := STATUS_OUT_OF_MEMORY\<rparr>)
                          | Undefined \<Rightarrow> Undefined
                          | Non_finite \<Rightarrow> Non_finite
                          | No_return \<Rightarrow> No_return
                          | Built s \<Rightarrow> finish_construction hdr env s)))"

section \<open>Driving the engine\<close>

text \<open>
  The caller of the streaming protocol: after each source line that \<open>put_line\<close> accepts,
  \<open>get_line\<close> is called until it returns \<open>NULL\<close>. \<open>drain\<close> is that inner loop; it ends
  because every line returned moves \<open>m_cur_dst_y\<close> one step towards the end of the Y table.
\<close>

lemma resample_y_step_keeps:
  assumes "resample_y_step fl c i Ptmp s = Some (Ptmp', s')"
  shows "m_Pclist_y s' = m_Pclist_y s \<and> m_cur_dst_y s' = m_cur_dst_y s"
proof -
  from assms obtain cnt where
    "s' = s\<lparr>m_Psrc_y_count := Some cnt\<rparr>
     \<or> (\<exists>flg sb. s' = s\<lparr>m_Psrc_y_count := Some cnt, m_Psrc_y_flag := Some flg,
                          m_Pscan_buf := Some sb\<rparr>)"
    unfolding resample_y_step_def Let_def
    by (auto simp: bind_eq_Some_conv split: if_splits)
  then show ?thesis by auto
qed

lemma resample_y_loop_keeps:
  "resample_y_loop fl cs i Ptmp s = Some (Ptmp', s') \<Longrightarrow>
     m_Pclist_y s' = m_Pclist_y s \<and> m_cur_dst_y s' = m_cur_dst_y s"
proof (induction cs arbitrary: i Ptmp s)
  case Nil
  then show ?case by simp
next
  case (Cons c cs)
  from Cons.prems obtain P1 s1 where
    st: "resample_y_step fl c i Ptmp s = Some (P1, s1)"
    and r: "resample_y_loop fl cs (Suc i) P1 s1 = Some (Ptmp', s')"
    by (auto simp: bind_eq_Some_conv)
  from Cons.IH [OF r] resample_y_step_keeps [OF st] show ?case by simp
qed

lemma generate_line_keeps:
  assumes "generate_line fl s Pdst Ptmp = Some s'"
  shows "m_Pclist_y s' = m_Pclist_y s \<and> m_cur_dst_y s' = m_cur_dst_y s"
proof -
  from assms obtain d where
    "s' = (if m_delay_x_resample s
           then s\<lparr>m_Ptmp_buf := Some Ptmp, m_Pdst_buf := Some d\<rparr>
           else s\<lparr>m_Pdst_buf := Some d\<rparr>)"
    unfolding generate_line_def by (auto simp: bind_eq_Some_conv)
  then show ?thesis by simp
qed

lemma resample_y_keeps:
  assumes "resample_y fl s = Some s'"
  shows "m_Pclist_y s' = m_Pclist_y s \<and> m_cur_dst_y s' = m_cur_dst_y s"
proof -
  from assms obtain cl Pdst Ptmp P1 s1 where
    l: "resample_y_loop fl cl 0 Ptmp s = Some (P1, s1)"
    and g: "generate_line fl s1 Pdst P1 = Some s'"
    unfolding resample_y_def
    by (auto simp: bind_eq_Some_conv)
  from resample_y_loop_keeps [OF l] generate_line_keeps [OF g] show ?thesis by simp
qed

lemma get_line_next:
  assumes "get_line fl s = Some (Some row, s')"
  shows "m_Pclist_y s' = m_Pclist_y s" "m_cur_dst_y s' = m_cur_dst_y s + 1"
    "0 \<le> m_cur_dst_y s" "\<exists>t. m_Pclist_y s = Some t \<and> nat (m_cur_dst_y s) < length t"
proof -
  from assms obtain t s1 where
    t: "m_Pclist_y s = Some t" "0 \<le> m_cur_dst_y s" "nat (m_cur_dst_y s) < length t"
    and y: "resample_y fl s = Some s1" and s': "s' = s1\<lparr>m_cur_dst_y := m_cur_dst_y s1 + 1\<rparr>"
    unfolding get_line_def
    by (auto simp: bind_eq_Some_conv read_at_def Let_def split: if_splits)
  from resample_y_keeps [OF y] s' t
  show "m_Pclist_y s' = m_Pclist_y s" "m_cur_dst_y s' = m_cur_dst_y s + 1"
    "0 \<le> m_cur_dst_y s" "\<exists>t. m_Pclist_y s = Some t \<and> nat (m_cur_dst_y s) < length t"
    by simp_all
qed

function drain :: "rounding \<Rightarrow> Resampler \<Rightarrow> (Sample list list \<times> Resampler) option" where
  "drain fl s =
     (case get_line fl s of
        None \<Rightarrow> None
      | Some (None, s') \<Rightarrow> Some ([], s')
      | Some (Some row, s') \<Rightarrow>
          (case drain fl s' of
             None \<Rightarrow> None
           | Some (rows, s'') \<Rightarrow> Some (row # rows, s'')))"
  by pat_completeness auto
termination
proof (relation "measure (\<lambda>(fl, s). length (the (m_Pclist_y s)) - nat (m_cur_dst_y s))")
  show "wf (measure (\<lambda>(fl, s). length (the (m_Pclist_y s)) - nat (m_cur_dst_y s)))" by simp
next
  fix fl s x2 x1 s' row
  assume "get_line fl s = Some x2" "(x1, s') = x2" "x1 = Some row"
  then have g: "get_line fl s = Some (Some row, s')" by simp
  from get_line_next [OF g]
  show "((fl, s'), (fl, s)) \<in> measure (\<lambda>(fl, s). length (the (m_Pclist_y s)) - nat (m_cur_dst_y s))"
    by auto
qed

text \<open>
  Feeding source lines in order, each with the outcome of the allocation its slot may
  need. The result tells whether every line was accepted, and holds the destination
  lines returned so far and the state; feeding stops at the first line \<open>put_line\<close>
  rejects.
\<close>

fun feed ::
  "rounding \<Rightarrow> Resampler \<Rightarrow> (bool \<times> Sample list) list
     \<Rightarrow> (bool \<times> Sample list list \<times> Resampler) option" where
  "feed fl s [] = Some (True, [], s)"
| "feed fl s ((malloc_ok, Psrc) # rest) =
     do {
       (accepted, s) \<leftarrow> put_line fl malloc_ok s Psrc;
       if \<not> accepted then Some (False, [], s)
       else do {
         (out, s) \<leftarrow> drain fl s;
         (acc, outs, s) \<leftarrow> feed fl s rest;
         Some (acc, out @ outs, s)
       }
     }"

text \<open>
  The states a caller can reach from \<open>s0\<close> by any sequence of calls, as long as it stops
  driving the engine once \<open>put_line\<close> has reported that memory ran out.
\<close>

inductive reachable :: "rounding \<Rightarrow> Resampler \<Rightarrow> Resampler \<Rightarrow> bool" for fl s0 where
  start: "reachable fl s0 s0"
| put: "reachable fl s0 s \<Longrightarrow> put_line fl malloc_ok s Psrc = Some (accepted, s')
          \<Longrightarrow> m_status s' \<noteq> STATUS_OUT_OF_MEMORY \<Longrightarrow> reachable fl s0 s'"
| get: "reachable fl s0 s \<Longrightarrow> get_line fl s = Some (r, s') \<Longrightarrow> reachable fl s0 s'"

section \<open>Notions used in the statements\<close>

text \<open>
  The parts of \<open>make_clist\<close> and \<open>make_row\<close>, named: the candidates that are kept (those
  whose normalized weight is not zero), the contributor stored for a candidate, the raw
  weights, the normalization factor and the state at the end of the second inner loop of
  a destination sample, the addition of the residual, and the scale, the half width, the
  bounds and the list of destination sample \<open>i\<close>.
\<close>

definition kept :: "rounding \<Rightarrow> (int \<Rightarrow> Resample_Real) \<Rightarrow> Resample_Real \<Rightarrow> int list \<Rightarrow> int list" where
  "kept fl w nrm js = filter (\<lambda>j. fl (w j * nrm) \<noteq> 0) js"

definition stored :: "rounding \<Rightarrow> int \<Rightarrow> Boundary_Op \<Rightarrow> (int \<Rightarrow> Resample_Real) \<Rightarrow> Resample_Real \<Rightarrow> int \<Rightarrow> Contrib" where
  "stored fl src_w boundary_op w nrm j =
     \<lparr>weight = fl (w j * nrm), pixel = word_of_int (reflect j src_w boundary_op)\<rparr>"

definition row_weight :: "rounding \<Rightarrow> (Resample_Real \<Rightarrow> Resample_Real option) \<Rightarrow> Resample_Real \<Rightarrow> Resample_Real \<Rightarrow> bool \<Rightarrow> Contrib_Bounds \<Rightarrow> int \<Rightarrow> Resample_Real" where
  "row_weight fl Pfilter oo_filter_scale xscale downsampling b j =
     the (Pfilter (filter_arg fl oo_filter_scale xscale downsampling (center b) j))"

definition row_norm :: "rounding \<Rightarrow> (Resample_Real \<Rightarrow> Resample_Real option) \<Rightarrow> Resample_Real \<Rightarrow> Resample_Real \<Rightarrow> bool \<Rightarrow> Contrib_Bounds \<Rightarrow> Resample_Real" where
  "row_norm fl Pfilter oo_filter_scale xscale downsampling b =
     fl (1 / sum_weights fl (row_weight fl Pfilter oo_filter_scale xscale downsampling b)
               [left b .. right b] 0)"

definition row_state :: "rounding \<Rightarrow> int \<Rightarrow> Boundary_Op \<Rightarrow> (Resample_Real \<Rightarrow> Resample_Real option) \<Rightarrow> Resample_Real \<Rightarrow> Resample_Real \<Rightarrow> bool \<Rightarrow> Contrib_Bounds \<Rightarrow> clist_state" where
  "row_state fl src_w boundary_op Pfilter oo_filter_scale xscale downsampling b =
     store_contribs fl src_w boundary_op
       (row_weight fl Pfilter oo_filter_scale xscale downsampling b)
       (row_norm fl Pfilter oo_filter_scale xscale downsampling b)
       [left b .. right b]
       \<lparr>p = [], total_weight = 0, max_k = - 1, max_w = fl (- (10 ^ 20))\<rparr>"

definition add_residual :: "rounding \<Rightarrow> clist_state \<Rightarrow> Contrib list" where
  "add_residual fl st =
     (if total_weight st \<noteq> 1
      then (p st)[nat (max_k st) :=
             (p st ! nat (max_k st))\<lparr>weight :=
                fl (weight (p st ! nat (max_k st)) + fl (1 - total_weight st))\<rparr>]
      else p st)"

definition clist_xscale :: "rounding \<Rightarrow> int \<Rightarrow> int \<Rightarrow> Resample_Real" where
  "clist_xscale fl src_w dst_w = fl (fl (of_int dst_w) / fl (of_int src_w))"

definition clist_half_width :: "rounding \<Rightarrow> int \<Rightarrow> int \<Rightarrow> Resample_Real \<Rightarrow> Resample_Real \<Rightarrow> Resample_Real" where
  "clist_half_width fl src_w dst_w filter_support filter_scale =
     fl ((if clist_xscale fl src_w dst_w < 1
          then fl (filter_support / clist_xscale fl src_w dst_w) else filter_support)
         * filter_scale)"

definition clist_bounds :: "rounding \<Rightarrow> int \<Rightarrow> int \<Rightarrow> Resample_Real \<Rightarrow> Resample_Real \<Rightarrow> Resample_Real \<Rightarrow> int \<Rightarrow> Contrib_Bounds" where
  "clist_bounds fl src_w dst_w filter_support filter_scale src_ofs i =
     contrib_bounds fl (clist_xscale fl src_w dst_w)
       (clist_half_width fl src_w dst_w filter_support filter_scale) src_ofs i"

definition clist_row ::
  "rounding \<Rightarrow> int \<Rightarrow> int \<Rightarrow> Boundary_Op \<Rightarrow> (Resample_Real \<Rightarrow> Resample_Real option)
     \<Rightarrow> Resample_Real \<Rightarrow> Resample_Real \<Rightarrow> Resample_Real \<Rightarrow> int \<Rightarrow> Contrib_List outcome" where
  "clist_row fl src_w dst_w boundary_op Pfilter filter_support filter_scale src_ofs i =
     make_row fl src_w boundary_op Pfilter (fl (1 / filter_scale)) (clist_xscale fl src_w dst_w)
       (clist_xscale fl src_w dst_w < 1)
       (clist_bounds fl src_w dst_w filter_support filter_scale src_ofs i)"

definition clist_state ::
  "rounding \<Rightarrow> int \<Rightarrow> int \<Rightarrow> Boundary_Op \<Rightarrow> (Resample_Real \<Rightarrow> Resample_Real option)
     \<Rightarrow> Resample_Real \<Rightarrow> Resample_Real \<Rightarrow> Resample_Real \<Rightarrow> int \<Rightarrow> clist_state" where
  "clist_state fl src_w dst_w boundary_op Pfilter filter_support filter_scale src_ofs i =
     row_state fl src_w boundary_op Pfilter (fl (1 / filter_scale)) (clist_xscale fl src_w dst_w)
       (clist_xscale fl src_w dst_w < 1)
       (clist_bounds fl src_w dst_w filter_support filter_scale src_ofs i)"




definition clist_kept ::
  "rounding \<Rightarrow> int \<Rightarrow> int \<Rightarrow> (Resample_Real \<Rightarrow> Resample_Real option)
     \<Rightarrow> Resample_Real \<Rightarrow> Resample_Real \<Rightarrow> Resample_Real \<Rightarrow> int \<Rightarrow> int list" where
  "clist_kept fl src_w dst_w Pfilter filter_support filter_scale src_ofs i =
     (let b = clist_bounds fl src_w dst_w filter_support filter_scale src_ofs i;
          oo = fl (1 / filter_scale);
          xs = clist_xscale fl src_w dst_w
      in kept fl (row_weight fl Pfilter oo xs (xs < 1) b) (row_norm fl Pfilter oo xs (xs < 1) b)
           [left b .. right b])"

text \<open>
  A rounding that is exact on the halves of the integers up to \<open>n + 1\<close> in magnitude, and
  that keeps the start value of \<open>max_w\<close> below one: exact arithmetic is one, and so is
  single precision for every extent that the stored indices can address.
\<close>

definition exact_on :: "rounding \<Rightarrow> int \<Rightarrow> bool" where
  "exact_on fl n \<longleftrightarrow>
     (\<forall>k. \<bar>k\<bar> \<le> 2 * n + 2 \<longrightarrow> fl (of_int k / 2) = of_int k / 2) \<and> fl (- (10 ^ 20)) < 1"

section \<open>Configurations used in the witnesses\<close>

text \<open>
  An object whose members are all zero, a header with four scan-buffer slots, whose
  \<open>count_ops\<close> adds up the lengths of the first \<open>k\<close> lists, an environment in which every
  allocation succeeds, and the arguments of a construction with the box filter, the
  clamp policy, unit filter scales, no offsets, no clamping of the samples and no
  sub-rectangle.
\<close>

definition blank :: Resampler where
  "blank = \<lparr>m_resample_src_w = 0, m_resample_src_h = 0, m_resample_dst_w = 0,
     m_resample_dst_h = 0, m_boundary_op = BOUNDARY_WRAP, m_dst_subrect_beg_x = 0,
     m_dst_subrect_end_x = 0, m_dst_subrect_beg_y = 0, m_dst_subrect_end_y = 0,
     m_Pdst_buf = None, m_Ptmp_buf = None, m_Pclist_x = None, m_Pclist_y = None,
     m_clist_x_forced = False, m_clist_y_forced = False, m_delay_x_resample = False,
     m_Psrc_y_count = None, m_Psrc_y_flag = None, m_Pscan_buf = None, m_cur_src_y = 0,
     m_cur_dst_y = 0, m_status = STATUS_OKAY, m_intermediate_x = 0, m_lo = 0, m_hi = 0\<rparr>"

definition small_header :: header where
  "small_header = \<lparr>MAX_SCAN_BUF_SIZE = 4, RESAMPLER_DEFAULT_FILTER = ''lanczos4'',
     count_ops = (\<lambda>t k. (\<Sum>l \<leftarrow> take (nat k) t. int (length l)))\<rparr>"

definition plentiful :: environment where
  "plentiful = \<lparr>alloc = (\<lambda>v. True), junk = 0\<rparr>"

definition box_arguments :: "int \<Rightarrow> int \<Rightarrow> int \<Rightarrow> int \<Rightarrow> arguments" where
  "box_arguments sw sh dw dh =
     \<lparr>arg_src_w = sw, arg_src_h = sh, arg_dst_w = dw, arg_dst_h = dh,
      arg_boundary_op = BOUNDARY_CLAMP, arg_sample_low = 0, arg_sample_high = 0,
      arg_Pfilter_name = Some ''box'', arg_Pclist_x = None, arg_Pclist_y = None,
      arg_filter_x_scale = 1, arg_filter_y_scale = 1, arg_src_x_ofs = 0, arg_src_y_ofs = 0,
      arg_dst_subrect_x = 0, arg_dst_subrect_y = 0, arg_dst_subrect_w = 0,
      arg_dst_subrect_h = 0\<rparr>"

text \<open>
  An engine with a single scan-buffer slot that shrinks two source lines of one sample
  into one destination line: as constructed, and after its first source line, \<open>[7]\<close>.
\<close>

definition narrow_header :: header where
  "narrow_header = small_header\<lparr>MAX_SCAN_BUF_SIZE := 1\<rparr>"

definition narrow_engine :: Resampler where
  "narrow_engine = blank\<lparr>m_resample_src_w := 1, m_resample_src_h := 2, m_resample_dst_w := 1,
     m_resample_dst_h := 1, m_boundary_op := BOUNDARY_CLAMP, m_dst_subrect_end_x := 1,
     m_dst_subrect_end_y := 1, m_Pdst_buf := Some [0], m_Ptmp_buf := Some [0],
     m_Pclist_x := Some [[\<lparr>weight = 1, pixel = 0\<rparr>]],
     m_Pclist_y := Some [[\<lparr>weight = 1 / 2, pixel = 0\<rparr>, \<lparr>weight = 1 / 2, pixel = 1\<rparr>]],
     m_delay_x_resample := True, m_Psrc_y_count := Some [1, 1],
     m_Psrc_y_flag := Some [False, False],
     m_Pscan_buf := Some \<lparr>scan_buf_y = [- 1], scan_buf_l = [None]\<rparr>,
     m_intermediate_x := 1\<rparr>"

definition narrow_engine_fed :: Resampler where
  "narrow_engine_fed = narrow_engine\<lparr>m_Psrc_y_flag := Some [True, False],
     m_Pscan_buf := Some \<lparr>scan_buf_y = [0], scan_buf_l = [Some [7]]\<rparr>,
     m_cur_src_y := 1\<rparr>"

section \<open>The invariant of the engine\<close>

text \<open>
  \<open>pending\<close> lists the contributors not yet consumed: those of the destination lines from
  \<open>m_cur_dst_y\<close> to the end of the sub-rectangle. \<open>occurrences\<close> counts the contributors of
  a list that name source line \<open>y\<close>.
\<close>

definition pending :: "Resampler \<Rightarrow> Contrib list" where
  "pending s =
     concat (drop (nat (m_cur_dst_y s))
               (take (nat (m_dst_subrect_end_y s)) (the (m_Pclist_y s))))"

definition occurrences :: "nat \<Rightarrow> Contrib list \<Rightarrow> int" where
  "occurrences y cs = int (length (filter (\<lambda>c. unat (pixel c) = y) cs))"

text \<open>
  The bookkeeping, on the arrays themselves. A count is at least the number of times its
  line is still to be consumed. A flag is set exactly for the source lines fed whose
  count is not zero. Every occupied slot holds a flagged line together with its samples,
  every block of samples has room for \<open>n\<close> of them, every flagged line has a slot, and no
  line has two.
\<close>

definition counts_ok :: "int list \<Rightarrow> Contrib list \<Rightarrow> bool" where
  "counts_ok count pend \<longleftrightarrow> (\<forall>y < length count. occurrences y pend \<le> count ! y)"

definition flags_ok :: "int \<Rightarrow> int list \<Rightarrow> bool list \<Rightarrow> bool" where
  "flags_ok cur count flag \<longleftrightarrow>
     length flag = length count
     \<and> (\<forall>y < length count. flag ! y \<longleftrightarrow> int y < cur \<and> count ! y \<noteq> 0)"

definition slots_ok :: "int \<Rightarrow> nat \<Rightarrow> bool list \<Rightarrow> Scan_Buf \<Rightarrow> bool" where
  "slots_ok cur n flag sb \<longleftrightarrow>
     length (scan_buf_l sb) = length (scan_buf_y sb)
     \<and> (\<forall>j < length (scan_buf_y sb). scan_buf_y sb ! j \<noteq> - 1 \<longrightarrow>
           0 \<le> scan_buf_y sb ! j \<and> scan_buf_y sb ! j < cur
           \<and> nat (scan_buf_y sb ! j) < length flag \<and> flag ! nat (scan_buf_y sb ! j)
           \<and> scan_buf_l sb ! j \<noteq> None)
     \<and> (\<forall>j < length (scan_buf_l sb). \<forall>line. scan_buf_l sb ! j = Some line \<longrightarrow> n \<le> length line)
     \<and> (\<forall>y < length flag. flag ! y \<longrightarrow> int y \<in> set (scan_buf_y sb))
     \<and> (\<forall>j < length (scan_buf_y sb). \<forall>k < length (scan_buf_y sb).
           scan_buf_y sb ! j = scan_buf_y sb ! k \<longrightarrow> scan_buf_y sb ! j = - 1 \<or> j = k)"

text \<open>
  \<open>book_ok\<close> is the bookkeeping of a state against a list of contributors still to
  consume; \<open>config_ok\<close> is the part of the invariant on the tables, the sub-rectangle and
  the buffers.
\<close>

definition book_ok :: "Resampler \<Rightarrow> Contrib list \<Rightarrow> bool" where
  "book_ok s pend \<longleftrightarrow>
     (\<exists>count flag sb.
        m_Psrc_y_count s = Some count \<and> m_Psrc_y_flag s = Some flag \<and> m_Pscan_buf s = Some sb
        \<and> length count = nat (m_resample_src_h s)
        \<and> 0 \<le> m_cur_src_y s \<and> m_cur_src_y s \<le> m_resample_src_h s
        \<and> (\<forall>c \<in> set pend. uint (pixel c) < m_resample_src_h s)
        \<and> counts_ok count pend
        \<and> flags_ok (m_cur_src_y s) count flag
        \<and> slots_ok (m_cur_src_y s) (nat (m_intermediate_x s)) flag sb)"

definition config_ok :: "Resampler \<Rightarrow> bool" where
  "config_ok s \<longleftrightarrow>
     (\<exists>tx ty dst.
        m_Pclist_x s = Some tx \<and> m_Pclist_y s = Some ty \<and> m_Pdst_buf s = Some dst
        \<and> 0 \<le> m_dst_subrect_beg_x s \<and> m_dst_subrect_beg_x s \<le> m_dst_subrect_end_x s
        \<and> m_dst_subrect_end_x s \<le> int (length tx)
        \<and> 0 \<le> m_dst_subrect_beg_y s \<and> m_dst_subrect_beg_y s \<le> m_cur_dst_y s
        \<and> m_cur_dst_y s \<le> m_dst_subrect_end_y s
        \<and> m_dst_subrect_end_y s \<le> int (length ty)
        \<and> (\<forall>l \<in> set tx. \<forall>c \<in> set l. uint (pixel c) < m_resample_src_w s)
        \<and> length dst = nat (m_dst_subrect_end_x s - m_dst_subrect_beg_x s)
        \<and> (if m_delay_x_resample s
            then m_intermediate_x s = m_resample_src_w s
                 \<and> (\<exists>tmp. m_Ptmp_buf s = Some tmp \<and> length tmp = nat (m_intermediate_x s))
            else m_intermediate_x s = m_dst_subrect_end_x s - m_dst_subrect_beg_x s))"

definition engine_inv :: "Resampler \<Rightarrow> bool" where
  "engine_inv s \<longleftrightarrow> config_ok s \<and> book_ok s (pending s)"

text \<open>The members that no call changes once the object is constructed.\<close>

definition same_setup :: "Resampler \<Rightarrow> Resampler \<Rightarrow> bool" where
  "same_setup s s' \<longleftrightarrow>
     m_resample_src_w s' = m_resample_src_w s \<and> m_resample_src_h s' = m_resample_src_h s
     \<and> m_Pclist_x s' = m_Pclist_x s \<and> m_Pclist_y s' = m_Pclist_y s
     \<and> m_dst_subrect_beg_x s' = m_dst_subrect_beg_x s
     \<and> m_dst_subrect_end_x s' = m_dst_subrect_end_x s
     \<and> m_dst_subrect_beg_y s' = m_dst_subrect_beg_y s
     \<and> m_dst_subrect_end_y s' = m_dst_subrect_end_y s
     \<and> m_delay_x_resample s' = m_delay_x_resample s
     \<and> m_intermediate_x s' = m_intermediate_x s
     \<and> m_lo s' = m_lo s \<and> m_hi s' = m_hi s"

section \<open>Properties of the boundary resolver\<close>

lemma wrap_id: "INT_MIN \<le> x \<Longrightarrow> x \<le> INT_MAX \<Longrightarrow> wrap x = x"
  by (simp add: wrap_def INT_MIN_def INT_MAX_def)

lemma c_rem_nonneg: "0 \<le> a \<Longrightarrow> 0 < b \<Longrightarrow> c_rem a b = a mod b"
  by (cases "a = 0") (simp_all add: c_rem_def c_div_def minus_mult_div_eq_mod)

lemma posmod_eq_mod:
  assumes y: "0 < y" "y \<le> INT_MAX" and x: "INT_MIN < x"
  shows "posmod x y = x mod y"
proof (cases "x \<ge> 0")
  case True
  with y show ?thesis by (simp add: posmod_def c_rem_nonneg)
next
  case False
  then have nx: "0 \<le> - x" by simp
  have "INT_MIN \<le> - x" "- x \<le> INT_MAX"
    using False x by (simp_all add: INT_MIN_def INT_MAX_def)
  then have wx: "wrap (- x) = - x" by (rule wrap_id)
  have cr: "c_rem (- x) y = (- x) mod y"
    using nx y(1) by (rule c_rem_nonneg)
  have m: "0 \<le> (- x) mod y" "(- x) mod y < y" using y(1) by simp_all
  have "INT_MIN \<le> y - (- x) mod y" "y - (- x) mod y \<le> INT_MAX"
    using m y unfolding INT_MIN_def INT_MAX_def by linarith+
  then have wy: "wrap (y - (- x) mod y) = y - (- x) mod y" by (rule wrap_id)
  have pm: "posmod x y = (if (- x) mod y \<noteq> 0 then y - (- x) mod y else (- x) mod y)"
    using False by (simp only: posmod_def wx cr wy Let_def if_False)
  show ?thesis
  proof (cases "(- x) mod y = 0")
    case True
    then have "y dvd x" by (simp add: mod_eq_0_iff_dvd)
    then have "x mod y = 0" by simp
    with True pm show ?thesis by simp
  next
    case nz: False
    then have "\<not> y dvd x" by (simp add: mod_eq_0_iff_dvd)
    then have "x mod y \<noteq> 0" by (simp add: mod_eq_0_iff_dvd)
    then have "(- x) mod y = y - x mod y"
      by (simp add: zmod_zminus1_eq_if)
    with nz pm show ?thesis by simp
  qed
qed

text \<open>
  On every index of the type but \<open>INT_MIN\<close>, and for every extent \<open>n > 0\<close> of the type, the
  resolver returns what C4 says: an index inside \<open>[0, n)\<close> is returned unchanged by every
  policy; outside it, clamp gives \<open>0\<close> below and \<open>n - 1\<close> above, reflect gives
  \<open>min (- j) (n - 1)\<close> below and \<open>max ((n - j) + (n - 1)) 0\<close> above, and wrap gives the
  mathematical modulo, which for a negative \<open>j\<close> is \<open>n - (\<bar>j\<bar> mod n)\<close> when \<open>\<bar>j\<bar> mod n\<close>
  is not zero.
\<close>

lemma reflect_above_INT_MIN:
  assumes "0 < n" "n \<le> INT_MAX" "INT_MIN < j" "j \<le> INT_MAX"
  shows "reflect j n boundary_op =
           (if 0 \<le> j \<and> j < n then j
            else case boundary_op of
                   BOUNDARY_CLAMP \<Rightarrow> (if j < 0 then 0 else n - 1)
                 | BOUNDARY_REFLECT \<Rightarrow>
                     (if j < 0 then min (- j) (n - 1) else max ((n - j) + (n - 1)) 0)
                 | BOUNDARY_WRAP \<Rightarrow> j mod n)"
    and "j < 0 \<and> \<bar>j\<bar> mod n \<noteq> 0 \<longrightarrow> j mod n = n - \<bar>j\<bar> mod n"
proof -
  have w1: "wrap (n - 1) = n - 1"
    using assms by (intro wrap_id) (simp_all add: INT_MIN_def)
  have w2: "wrap (- j) = - j" if "j < 0"
    using assms that by (intro wrap_id) (simp_all add: INT_MIN_def INT_MAX_def)
  have w3: "wrap (n - j) = n - j" if "n \<le> j"
    using assms that by (intro wrap_id) (simp_all add: INT_MIN_def INT_MAX_def)
  have w4: "wrap (2 * n + (- j - 1)) = 2 * n + (- j - 1)" if "n \<le> j"
    using assms that by (intro wrap_id) (simp_all add: INT_MIN_def INT_MAX_def)
  show "reflect j n boundary_op =
           (if 0 \<le> j \<and> j < n then j
            else case boundary_op of
                   BOUNDARY_CLAMP \<Rightarrow> (if j < 0 then 0 else n - 1)
                 | BOUNDARY_REFLECT \<Rightarrow>
                     (if j < 0 then min (- j) (n - 1) else max ((n - j) + (n - 1)) 0)
                 | BOUNDARY_WRAP \<Rightarrow> j mod n)"
    using assms(1) posmod_eq_mod [OF assms(1,2,3)]
    by (cases boundary_op) (auto simp: reflect_def Let_def min_def max_def w1 w2 w3 w4)
  show "j < 0 \<and> \<bar>j\<bar> mod n \<noteq> 0 \<longrightarrow> j mod n = n - \<bar>j\<bar> mod n"
    using assms(1) by (auto simp: zmod_zminus1_eq_if abs_if dest: sym)
qed

lemma reflect_range:
  assumes "0 < n" "n \<le> INT_MAX" "INT_MIN < j" "j \<le> INT_MAX"
  shows "0 \<le> reflect j n boundary_op \<and> reflect j n boundary_op < n"
  unfolding reflect_above_INT_MIN(1) [OF assms]
  using assms(1) by (cases boundary_op) auto

text \<open>
  C4 fails at one index. For \<open>j = INT_MIN\<close> the negation in \<open>reflect\<close> and in \<open>posmod\<close>
  overflows and gives \<open>INT_MIN\<close> again: with the extent 10 the reflect policy returns
  \<open>INT_MIN\<close> where the claim says \<open>min (- j) (n - 1) = 9\<close>, and the wrap policy returns 18
  where the mathematical modulo is 2. Neither result is an index of the extent. (The
  clamp policy does not negate and returns 0.)
\<close>

theorem reflect_INT_MIN:
  "reflect INT_MIN 10 BOUNDARY_REFLECT = INT_MIN
   \<and> min (- INT_MIN) (10 - 1) = 9
   \<and> reflect INT_MIN 10 BOUNDARY_WRAP = 18
   \<and> INT_MIN mod 10 = 2
   \<and> reflect INT_MIN 10 BOUNDARY_CLAMP = 0"
  by (simp add: reflect_def posmod_def c_rem_def c_div_def wrap_def INT_MIN_def Let_def)

section \<open>The structure of a contributor table\<close>

lemma store_contribs_p:
  "p (store_contribs fl src_w boundary_op w nrm js st) =
     p st @ map (stored fl src_w boundary_op w nrm) (kept fl w nrm js)"
  by (induction js arbitrary: st) (simp_all add: kept_def stored_def Let_def)

lemma make_row_Built:
  assumes "make_row fl src_w boundary_op Pfilter oo xscale down b = Built l"
  shows "l = add_residual fl (row_state fl src_w boundary_op Pfilter oo xscale down b)
         \<and> max_k (row_state fl src_w boundary_op Pfilter oo xscale down b) \<noteq> - 1
         \<and> p (row_state fl src_w boundary_op Pfilter oo xscale down b) \<noteq> []
         \<and> sum_weights fl (row_weight fl Pfilter oo xscale down b) [left b .. right b] 0 \<noteq> 0
         \<and> (\<forall>j \<in> {left b .. right b}. Pfilter (filter_arg fl oo xscale down (center b) j) \<noteq> None)
         \<and> (left b \<le> right b \<longrightarrow> right b \<noteq> INT_MAX)"
  using assms
  unfolding make_row_def row_state_def row_norm_def row_weight_def add_residual_def Let_def
  by (auto split: if_splits)

lemma map_pixel_update:
  "map pixel (xs[k := (xs ! k)\<lparr>weight := v\<rparr>]) = map pixel xs"
proof (cases "k < length xs")
  case True
  then have "(map pixel xs)[k := pixel (xs ! k)] = map pixel xs"
    by (metis length_map list_update_id nth_map)
  then show ?thesis by (simp add: map_update)
next
  case False
  then have "length xs \<le> k" by simp
  then show ?thesis by (simp only: list_update_beyond)
qed

lemma add_residual_pixels: "map pixel (add_residual fl st) = map pixel (p st)"
  by (simp add: add_residual_def map_pixel_update)

lemma make_rows_Built:
  "make_rows row pool_total used bs = Built ls \<Longrightarrow>
     length ls = length bs \<and> (\<forall>i < length bs. row (bs ! i) = Built (ls ! i))"
proof (induction bs arbitrary: used ls)
  case Nil
  then show ?case by simp
next
  case (Cons b bs)
  from Cons.prems obtain l ls' where
    r: "row b = Built l" and rs: "make_rows row pool_total (used + range_size b) bs = Built ls'"
    and ls: "ls = l # ls'"
    by (auto simp: Let_def split: if_splits outcome.splits)
  from Cons.IH [OF rs] have ih: "length ls' = length bs" "\<forall>i < length bs. row (bs ! i) = Built (ls' ! i)"
    by simp_all
  show ?case
  proof (intro conjI allI impI)
    show "length ls = length (b # bs)" using ih ls by simp
  next
    fix i assume "i < length (b # bs)"
    then show "row ((b # bs) ! i) = Built (ls ! i)"
      using r ih ls by (cases i) simp_all
  qed
qed

lemma make_clist_Built:
  assumes "make_clist fl al src_w dst_w boundary_op Pfilter filter_support filter_scale src_ofs
             = Built tbl"
  shows "length tbl = nat dst_w"
    and "\<And>i. i < nat dst_w \<Longrightarrow>
           clist_row fl src_w dst_w boundary_op Pfilter filter_support filter_scale src_ofs (int i)
             = Built (tbl ! i)"
    and "\<And>i. i < nat dst_w \<Longrightarrow>
           INT_MIN \<le> left (clist_bounds fl src_w dst_w filter_support filter_scale src_ofs (int i))
           \<and> right (clist_bounds fl src_w dst_w filter_support filter_scale src_ofs (int i))
                 \<le> INT_MAX"
proof -
  let ?xs = "clist_xscale fl src_w dst_w"
  let ?bnd = "clist_bounds fl src_w dst_w filter_support filter_scale src_ofs"
  let ?bs = "map ?bnd [0 .. dst_w - 1]"
  let ?row = "make_row fl src_w boundary_op Pfilter (fl (1 / filter_scale)) ?xs (?xs < 1)"
  from assms obtain tot where m: "make_rows ?row tot 0 ?bs = Built tbl"
    and fit: "\<forall>b \<in> set ?bs. \<not> (left b < INT_MIN \<or> INT_MAX < left b
                                \<or> right b < INT_MIN \<or> INT_MAX < right b)"
    unfolding make_clist_def make_clist_heap_def Let_def clist_xscale_def [symmetric]
    by (auto simp: clist_bounds_def [abs_def] clist_half_width_def
          split: if_splits outcome.splits)
  from make_rows_Built [OF m]
  have len: "length tbl = length ?bs" and rows: "\<forall>i < length ?bs. ?row (?bs ! i) = Built (tbl ! i)"
    by blast+
  show "length tbl = nat dst_w" using len by simp
  fix i assume i: "i < nat dst_w"
  then have n: "?bs ! i = ?bnd (int i)"
    by simp
  with rows i show "clist_row fl src_w dst_w boundary_op Pfilter filter_support filter_scale src_ofs (int i)
             = Built (tbl ! i)"
    by (simp add: clist_row_def)
  have "?bs ! i \<in> set ?bs" using i by (intro nth_mem) simp
  with fit n show "INT_MIN \<le> left (?bnd (int i)) \<and> right (?bnd (int i)) \<le> INT_MAX"
    by auto
qed

lemma uint_ushort: "uint (word_of_int n :: 16 word) = n mod 65536"
  by (simp add: uint_word_of_int)

lemma clist_row_pixels:
  assumes "clist_row fl src_w dst_w boundary_op Pfilter filter_support filter_scale src_ofs i = Built l"
  shows "\<exists>w nrm. map pixel l = map (\<lambda>j. word_of_int (reflect j src_w boundary_op))
           (kept fl w nrm
              [left (clist_bounds fl src_w dst_w filter_support filter_scale src_ofs i) ..
               right (clist_bounds fl src_w dst_w filter_support filter_scale src_ofs i)])"
proof -
  from make_row_Built [OF assms [unfolded clist_row_def]]
  show ?thesis
    by (auto simp: add_residual_pixels row_state_def store_contribs_p stored_def comp_def)
qed

lemma make_rows_eq_Built:
  assumes "\<forall>i \<in> set is. row (g i) = Built (f i) \<and> 0 \<le> range_size (g i)"
    and "used + (\<Sum>i \<leftarrow> is. range_size (g i)) \<le> pool_total"
  shows "make_rows row pool_total used (map g is) = Built (map f is)"
  using assms
proof (induction "is" arbitrary: used)
  case Nil
  then show ?case by simp
next
  case (Cons i "is")
  have nonneg: "0 \<le> (\<Sum>i \<leftarrow> is. range_size (g i))"
    using Cons.prems(1) by (intro sum_list_nonneg) auto
  have a: "\<not> pool_total < used + range_size (g i)"
    using Cons.prems(2) nonneg by simp
  have "make_rows row pool_total (used + range_size (g i)) (map g is)
          = Built (map f is)"
    using Cons.prems by (intro Cons.IH) (auto simp: algebra_simps)
  with a Cons.prems(1) show ?case by (simp add: Let_def)
qed

lemma range_size_id:
  assumes "left b \<le> right b + 1" "right b - left b + 1 \<le> INT_MAX"
  shows "range_size b = right b - left b + 1"
proof -
  have "wrap (right b - left b) = right b - left b"
    using assms by (intro wrap_id) (simp_all add: INT_MIN_def)
  moreover have "wrap (right b - left b + 1) = right b - left b + 1"
    using assms by (intro wrap_id) (simp_all add: INT_MIN_def)
  ultimately show ?thesis by (simp add: range_size_def)
qed

lemma foldl_wrap_sum:
  assumes "\<forall>b \<in> set bs. 0 \<le> f b" "0 \<le> a" "a + sum_list (map f bs) \<le> INT_MAX"
  shows "foldl (\<lambda>n b. wrap (n + f b)) a bs = a + sum_list (map f bs)"
  using assms
proof (induction bs arbitrary: a)
  case Nil
  then show ?case by simp
next
  case (Cons b bs)
  have nonneg: "0 \<le> sum_list (map f bs)"
    using Cons.prems(1) by (intro sum_list_nonneg) auto
  have fb: "0 \<le> f b" using Cons.prems(1) by simp
  have "wrap (a + f b) = a + f b"
    using Cons.prems(2,3) nonneg fb by (intro wrap_id) (simp_all add: INT_MIN_def)
  moreover have "foldl (\<lambda>n b. wrap (n + f b)) (a + f b) bs = a + f b + sum_list (map f bs)"
    using Cons.prems fb by (intro Cons.IH) (simp_all add: algebra_simps)
  ultimately show ?case by simp
qed

text \<open>
  The count of all the candidates when no range has a negative size and the exact count
  is a value of \<open>int\<close>: no addition wraps around.
\<close>

lemma pool_total_exact:
  assumes "\<forall>i \<in> set is. left (g i) \<le> right (g i) + 1"
    and "(\<Sum>i \<leftarrow> is. right (g i) - left (g i) + 1) \<le> INT_MAX"
  shows "\<forall>i \<in> set is. range_size (g i) = right (g i) - left (g i) + 1"
    and "foldl (\<lambda>n b. wrap (n + range_size b)) 0 (map g is)
           = (\<Sum>i \<leftarrow> is. right (g i) - left (g i) + 1)"
proof -
  have each: "right (g i) - left (g i) + 1 \<le> INT_MAX" if "i \<in> set is" for i
  proof -
    have "\<forall>k \<in> set is. 0 \<le> right (g k) - left (g k) + 1" using assms(1) by auto
    then have "right (g i) - left (g i) + 1 \<le> (\<Sum>i \<leftarrow> is. right (g i) - left (g i) + 1)"
      using that by (intro member_le_sum_list) auto
    with assms(2) show ?thesis by simp
  qed
  show r: "\<forall>i \<in> set is. range_size (g i) = right (g i) - left (g i) + 1"
    using assms(1) each by (auto intro: range_size_id)
  then have "map (\<lambda>i. range_size (g i)) is = map (\<lambda>i. right (g i) - left (g i) + 1) is"
    by simp
  then have "(\<Sum>i \<leftarrow> is. range_size (g i)) = (\<Sum>i \<leftarrow> is. right (g i) - left (g i) + 1)"
    by (rule arg_cong)
  then have eq: "sum_list (map range_size (map g is))
                   = (\<Sum>i \<leftarrow> is. right (g i) - left (g i) + 1)"
    by (simp only: map_map comp_def)
  have "foldl (\<lambda>n b. wrap (n + range_size b)) 0 (map g is)
          = 0 + sum_list (map range_size (map g is))"
  proof (rule foldl_wrap_sum)
    show "\<forall>b \<in> set (map g is). 0 \<le> range_size b" using r assms(1) by auto
    show "0 + sum_list (map range_size (map g is)) \<le> INT_MAX"
      unfolding eq using assms(2) by simp
  qed simp
  then show "foldl (\<lambda>n b. wrap (n + range_size b)) 0 (map g is)
           = (\<Sum>i \<leftarrow> is. right (g i) - left (g i) + 1)"
    unfolding eq by simp
qed

lemma make_row_Built_nonempty:
  assumes "make_row fl src_w boundary_op Pfilter oo xscale down b = Built l"
  shows "left b \<le> right b" and "l \<noteq> []"
proof -
  from make_row_Built [OF assms]
  have l: "l = add_residual fl (row_state fl src_w boundary_op Pfilter oo xscale down b)"
    and ne: "p (row_state fl src_w boundary_op Pfilter oo xscale down b) \<noteq> []"
    by simp_all
  from ne have "kept fl (row_weight fl Pfilter oo xscale down b)
                  (row_norm fl Pfilter oo xscale down b) [left b .. right b] \<noteq> []"
    by (simp add: row_state_def store_contribs_p)
  then have "[left b .. right b] \<noteq> []" by (auto simp: kept_def)
  then show "left b \<le> right b" by simp
  from ne have "map pixel l \<noteq> []" unfolding l add_residual_pixels by simp
  then show "l \<noteq> []" by simp
qed

lemma make_clist_heap_eq_Built:
  assumes al: "al ''Pcontrib''" "al ''Pcontrib_bounds''" "al ''Pcpool''"
    and nz: "filter_scale \<noteq> 0" "fl (of_int src_w) \<noteq> 0" "clist_xscale fl src_w dst_w \<noteq> 0"
    and pos: "0 < dst_w"
    and rows: "\<forall>i \<in> {0 .. dst_w - 1}.
        clist_row fl src_w dst_w boundary_op Pfilter filter_support filter_scale src_ofs i
          = Built (f i)"
    and fit: "\<forall>i \<in> {0 .. dst_w - 1}.
        INT_MIN \<le> left (clist_bounds fl src_w dst_w filter_support filter_scale src_ofs i)
        \<and> right (clist_bounds fl src_w dst_w filter_support filter_scale src_ofs i) \<le> INT_MAX"
    and sum: "(\<Sum>i \<leftarrow> [0 .. dst_w - 1].
        right (clist_bounds fl src_w dst_w filter_support filter_scale src_ofs i)
        - left (clist_bounds fl src_w dst_w filter_support filter_scale src_ofs i) + 1) \<le> INT_MAX"
  shows "make_clist_heap fl al src_w dst_w boundary_op Pfilter filter_support filter_scale src_ofs
           = (Built (map f [0 .. dst_w - 1]), [''Pcpool'', ''Pcontrib''])"
proof -
  let ?xs = "clist_xscale fl src_w dst_w"
  let ?bnd = "clist_bounds fl src_w dst_w filter_support filter_scale src_ofs"
  let ?row = "make_row fl src_w boundary_op Pfilter (fl (1 / filter_scale)) ?xs (?xs < 1)"
  let ?tot = "(\<Sum>i \<leftarrow> [0 .. dst_w - 1]. right (?bnd i) - left (?bnd i) + 1)"
  have r: "\<forall>i \<in> set [0 .. dst_w - 1].
             ?row (?bnd i) = Built (f i) \<and> left (?bnd i) \<le> right (?bnd i)"
    using rows make_row_Built_nonempty(1) by (fastforce simp: clist_row_def)
  then have sz: "\<forall>i \<in> set [0 .. dst_w - 1]. left (?bnd i) \<le> right (?bnd i) + 1"
    by auto
  note E = pool_total_exact [of "[0 .. dst_w - 1]" ?bnd, OF sz sum]
  have "1 \<le> right (?bnd 0) - left (?bnd 0) + 1" using r pos by simp
  moreover have "?tot = (right (?bnd 0) - left (?bnd 0) + 1)
          + (\<Sum>i \<leftarrow> [1 .. dst_w - 1]. right (?bnd i) - left (?bnd i) + 1)"
    using pos by (subst upto_rec1) simp_all
  moreover have "0 \<le> (\<Sum>i \<leftarrow> [1 .. dst_w - 1]. right (?bnd i) - left (?bnd i) + 1)"
    using r by (intro sum_list_nonneg) auto
  ultimately have tot: "?tot \<noteq> 0" by simp
  have m: "make_rows ?row ?tot 0 (map ?bnd [0 .. dst_w - 1]) = Built (map f [0 .. dst_w - 1])"
  proof (rule make_rows_eq_Built)
    show "\<forall>i \<in> set [0 .. dst_w - 1]. ?row (?bnd i) = Built (f i) \<and> 0 \<le> range_size (?bnd i)"
      using r E(1) by auto
    have "(\<Sum>i \<leftarrow> [0 .. dst_w - 1]. range_size (?bnd i)) = ?tot"
      using E(1) by (intro arg_cong [where f = sum_list] map_cong) auto
    then show "0 + (\<Sum>i \<leftarrow> [0 .. dst_w - 1]. range_size (?bnd i)) \<le> ?tot" by simp
  qed
  have inside: "\<not> (\<exists>b \<in> set (map ?bnd [0 .. dst_w - 1]).
                    left b < INT_MIN \<or> INT_MAX < left b
                    \<or> right b < INT_MIN \<or> INT_MAX < right b)"
    using fit r by fastforce
  have fr: "free ''Pcontrib_bounds'' [''Pcpool'', ''Pcontrib_bounds'', ''Pcontrib'']
              = [''Pcpool'', ''Pcontrib'']"
    by (simp add: free_def)
  show ?thesis
    unfolding make_clist_heap_def Let_def clist_xscale_def [symmetric]
    using al nz tot m inside E(2)
    by (simp add: fr clist_bounds_def [abs_def] clist_half_width_def comp_def)
qed

lemma make_clist_eq_Built:
  assumes al: "al ''Pcontrib''" "al ''Pcontrib_bounds''" "al ''Pcpool''"
    and nz: "filter_scale \<noteq> 0" "fl (of_int src_w) \<noteq> 0" "clist_xscale fl src_w dst_w \<noteq> 0"
    and pos: "0 < dst_w"
    and rows: "\<forall>i \<in> {0 .. dst_w - 1}.
        clist_row fl src_w dst_w boundary_op Pfilter filter_support filter_scale src_ofs i
          = Built (f i)"
    and fit: "\<forall>i \<in> {0 .. dst_w - 1}.
        INT_MIN \<le> left (clist_bounds fl src_w dst_w filter_support filter_scale src_ofs i)
        \<and> right (clist_bounds fl src_w dst_w filter_support filter_scale src_ofs i) \<le> INT_MAX"
    and sum: "(\<Sum>i \<leftarrow> [0 .. dst_w - 1].
        right (clist_bounds fl src_w dst_w filter_support filter_scale src_ofs i)
        - left (clist_bounds fl src_w dst_w filter_support filter_scale src_ofs i) + 1) \<le> INT_MAX"
  shows "make_clist fl al src_w dst_w boundary_op Pfilter filter_support filter_scale src_ofs
           = Built (map f [0 .. dst_w - 1])"
  unfolding make_clist_def make_clist_heap_eq_Built [OF assms] by simp








lemma store_contribs_step:
  "store_contribs fl src_w boundary_op w nrm (j # js)
     \<lparr>p = ps, total_weight = t, max_k = k, max_w = m\<rparr> =
   (if fl (w j * nrm) = 0
    then store_contribs fl src_w boundary_op w nrm js
           \<lparr>p = ps, total_weight = t, max_k = k, max_w = m\<rparr>
    else store_contribs fl src_w boundary_op w nrm js
           \<lparr>p = ps @ [\<lparr>weight = fl (w j * nrm),
                        pixel = word_of_int (reflect j src_w boundary_op)\<rparr>],
            total_weight = fl (t + fl (w j * nrm)),
            max_k = (if m < fl (w j * nrm) then int (length ps) else k),
            max_w = (if m < fl (w j * nrm) then fl (w j * nrm) else m)\<rparr>)"
  by (simp add: Let_def)


lemma make_row_eq_Built:
  assumes "\<forall>j \<in> {left b .. right b}. Pfilter (filter_arg fl oo xscale down (center b) j) \<noteq> None"
    and "sum_weights fl (row_weight fl Pfilter oo xscale down b) [left b .. right b] 0 \<noteq> 0"
    and "max_k (row_state fl src_w boundary_op Pfilter oo xscale down b) \<noteq> - 1"
    and "p (row_state fl src_w boundary_op Pfilter oo xscale down b) \<noteq> []"
    and "right b \<noteq> INT_MAX"
  shows "make_row fl src_w boundary_op Pfilter oo xscale down b
           = Built (add_residual fl (row_state fl src_w boundary_op Pfilter oo xscale down b))"
  using assms
  unfolding make_row_def row_state_def row_norm_def row_weight_def add_residual_def Let_def
  by auto















lemma kept_sorted: "sorted_wrt (<) (kept fl w nrm [l .. r])"
  unfolding kept_def by (intro sorted_wrt_filter) (simp add: sorted_wrt_upto)

lemma kept_subset: "set (kept fl w nrm js) \<subseteq> set js"
  by (auto simp: kept_def)

lemma exact_tent_up2:
  "make_clist (\<lambda>x. x) (\<lambda>v. True) 1 2 BOUNDARY_CLAMP (Some \<circ> tent_filter (\<lambda>x. x)) 1 1 0 =
     Built [[\<lparr>weight = 1 / 4, pixel = 0\<rparr>, \<lparr>weight = 3 / 4, pixel = 0\<rparr>],
            [\<lparr>weight = 3 / 4, pixel = 0\<rparr>, \<lparr>weight = 1 / 4, pixel = 0\<rparr>]]"
  by (simp add: make_clist_def make_clist_heap_def make_row_def contrib_bounds_def NUDGE_def
        filter_arg_def tent_filter_def Let_def reflect_def upto_rec1 range_size_def wrap_def
        INT_MIN_def INT_MAX_def)

text \<open>
  C3, as stated, fails. Doubling one source sample with the tent filter and the clamp
  policy, the candidates \<open>-1\<close> and \<open>0\<close> of destination sample \<open>0\<close> both have a nonzero
  weight and both resolve to source index \<open>0\<close>: the list holds index \<open>0\<close> twice.
\<close>

theorem duplicate_indices_counterexample:
  "make_clist (\<lambda>x. x) (\<lambda>v. True) 1 2 BOUNDARY_CLAMP (Some \<circ> tent_filter (\<lambda>x. x)) 1 1 0 =
     Built [[\<lparr>weight = 1 / 4, pixel = 0\<rparr>, \<lparr>weight = 3 / 4, pixel = 0\<rparr>],
            [\<lparr>weight = 3 / 4, pixel = 0\<rparr>, \<lparr>weight = 1 / 4, pixel = 0\<rparr>]]
   \<and> \<not> distinct (map pixel [\<lparr>weight = 1 / 4, pixel = 0\<rparr>, \<lparr>weight = 3 / 4, pixel = 0 :: 16 word\<rparr>])"
  using exact_tent_up2 by simp

lemma exact_onD:
  assumes "exact_on fl n" "\<bar>k\<bar> \<le> 2 * n + 2"
  shows "fl (of_int k / 2) = of_int k / 2"
  using assms unfolding exact_on_def by blast

lemma exact_on_int:
  assumes "exact_on fl n" "\<bar>j\<bar> \<le> n + 1"
  shows "fl (of_int j) = of_int j"
proof -
  have "fl (of_int (2 * j) / 2) = of_int (2 * j) / 2"
    using assms(2) by (intro exact_onD [OF assms(1)]) simp
  then show ?thesis by simp
qed

lemma exact_on_half:
  assumes "exact_on fl n" "- n - 1 \<le> j" "j \<le> n"
  shows "fl (of_int j + 1 / 2) = of_int j + 1 / 2"
proof -
  have "fl (of_int (2 * j + 1) / 2) = of_int (2 * j + 1) / 2"
    using assms(2,3) by (intro exact_onD [OF assms(1)]) simp
  then show ?thesis by (simp add: add_divide_distrib)
qed

lemma exact_on_consts:
  assumes "exact_on fl n" "0 \<le> n"
  shows "fl 0 = 0" "fl 1 = 1" "fl (- 1) = - 1" "fl (1 / 2) = 1 / 2"
  using exact_on_int [OF assms(1), of 0] exact_on_int [OF assms(1), of 1]
    exact_on_int [OF assms(1), of "- 1"] exact_on_half [OF assms(1), of 0] assms(2)
  by simp_all

lemma identity_parts:
  assumes e: "exact_on fl n" and i: "0 \<le> i" "i < n"
  shows "clist_xscale fl n n = 1"
    and "fl (1 / 1) = 1"
    and "clist_bounds fl n n (1 / 2) 1 0 i = \<lparr>center = of_int i, left = i - 1, right = i + 1\<rparr>"
    and "[i - 1 .. i + 1] = [i - 1, i, i + 1]"
    and "row_weight fl (Some \<circ> box_filter) 1 1 False
           \<lparr>center = of_int i, left = i - 1, right = i + 1\<rparr> (i - 1) = 0"
    and "row_weight fl (Some \<circ> box_filter) 1 1 False
           \<lparr>center = of_int i, left = i - 1, right = i + 1\<rparr> i = 1"
    and "row_weight fl (Some \<circ> box_filter) 1 1 False
           \<lparr>center = of_int i, left = i - 1, right = i + 1\<rparr> (i + 1) = 0"
    and "sum_weights fl (row_weight fl (Some \<circ> box_filter) 1 1 False
           \<lparr>center = of_int i, left = i - 1, right = i + 1\<rparr>) [i - 1 .. i + 1] 0 = 1"
    and "row_norm fl (Some \<circ> box_filter) 1 1 False
           \<lparr>center = of_int i, left = i - 1, right = i + 1\<rparr> = 1"
proof -
  have n: "0 \<le> n" using i by simp
  note c = exact_on_consts [OF e n]
  have fn: "fl (of_int n) = of_int n" using e n by (intro exact_on_int) auto
  show xs: "clist_xscale fl n n = 1" using i by (simp add: clist_xscale_def fn c)
  show "fl (1 / 1) = 1" using c by simp
  have fi: "fl (of_int i) = of_int i" using e i by (intro exact_on_int) auto
  have fih: "fl (of_int i + 1 / 2) = of_int i + 1 / 2" using e i by (intro exact_on_half) auto
  have "fl (of_int (i - 1) + 1 / 2) = of_int (i - 1) + 1 / 2"
    using e i by (intro exact_on_half) auto
  then have fil: "fl (of_int i - 1 / 2) = of_int i - 1 / 2" by simp
  have fl1: "\<lfloor>of_int i - (1 / 2 :: real)\<rfloor> = i - 1" by linarith
  have ce1: "\<lceil>of_int i + (1 / 2 :: real)\<rceil> = i + 1" by linarith
  have hw: "clist_half_width fl n n (1 / 2) 1 = 1 / 2"
    by (simp add: clist_half_width_def xs c)
  show "clist_bounds fl n n (1 / 2) 1 0 i = \<lparr>center = of_int i, left = i - 1, right = i + 1\<rparr>"
    unfolding clist_bounds_def contrib_bounds_def xs hw NUDGE_def Let_def
    by (simp add: fi fih fil fl1 ce1)
  show js: "[i - 1 .. i + 1] = [i - 1, i, i + 1]"
    by (simp add: upto_rec1)
  have f1: "fl (of_int i - 1) = of_int i - 1"
    using exact_on_int [OF e, of "i - 1"] i by simp
  have f2: "fl (of_int i + 1) = of_int i + 1"
    using exact_on_int [OF e, of "i + 1"] i by simp
  let ?b = "\<lparr>center = of_int i, left = i - 1, right = i + 1\<rparr>"
  let ?w = "row_weight fl (Some \<circ> box_filter) 1 1 False ?b"
  show w: "?w (i - 1) = 0" "?w i = 1" "?w (i + 1) = 0"
    by (simp_all add: row_weight_def filter_arg_def box_filter_def fi f1 f2 c)
  show tot: "sum_weights fl ?w [i - 1 .. i + 1] 0 = 1"
    unfolding js by (simp add: w c)
  show "row_norm fl (Some \<circ> box_filter) 1 1 False ?b = 1"
    unfolding row_norm_def Contrib_Bounds.simps tot by (simp add: c)
qed

lemma identity_kept:
  assumes e: "exact_on fl n" and i: "0 \<le> i" "i < n"
  shows "clist_kept fl n n (Some \<circ> box_filter) (1 / 2) 1 0 i = [i]"
proof -
  note P = identity_parts [OF assms]
  have c: "fl 0 = 0" "fl 1 = 1" using exact_on_consts [OF e] i by simp_all
  show ?thesis
    unfolding clist_kept_def Let_def P(1,2,3) Contrib_Bounds.simps
    by (simp add: kept_def P c)
qed

lemma identity_row:
  assumes e: "exact_on fl n" and i: "0 \<le> i" "i < n" and n: "3 * n \<le> INT_MAX"
  shows "clist_row fl n n BOUNDARY_CLAMP (Some \<circ> box_filter) (1 / 2) 1 0 i
           = Built [\<lparr>weight = 1, pixel = word_of_int i\<rparr>]"
proof -
  note P = identity_parts [OF e i]
  have c: "fl 0 = 0" "fl 1 = 1" using exact_on_consts [OF e] i by simp_all
  let ?b = "\<lparr>center = of_int i, left = i - 1, right = i + 1\<rparr>"
  have m0: "fl (- (10 ^ 20)) < 1" using e by (simp add: exact_on_def)
  have r: "reflect i n BOUNDARY_CLAMP = i" using i by (simp add: reflect_def)
  have st: "row_state fl n BOUNDARY_CLAMP (Some \<circ> box_filter) 1 1 False ?b =
              \<lparr>p = [\<lparr>weight = 1, pixel = word_of_int i\<rparr>], total_weight = 1,
               max_k = 0, max_w = 1\<rparr>"
    unfolding row_state_def P(9) Contrib_Bounds.simps P(4)
    using m0 by (simp add: P(5,6,7) c Let_def r)
  have "make_row fl n BOUNDARY_CLAMP (Some \<circ> box_filter) 1 1 False ?b
          = Built (add_residual fl (row_state fl n BOUNDARY_CLAMP (Some \<circ> box_filter) 1 1 False ?b))"
  proof (rule make_row_eq_Built)
    show "sum_weights fl (row_weight fl (Some \<circ> box_filter) 1 1 False ?b)
            [left ?b .. right ?b] 0 \<noteq> 0"
      unfolding Contrib_Bounds.simps P(8) by simp
    show "right ?b \<noteq> INT_MAX" using i n by simp
  qed (simp_all add: st)
  then have "make_row fl n BOUNDARY_CLAMP (Some \<circ> box_filter) 1 1 False ?b
          = Built [\<lparr>weight = 1, pixel = word_of_int i\<rparr>]"
    unfolding st by (simp add: add_residual_def)
  then show ?thesis
    unfolding clist_row_def P(1,2,3) by simp
qed

lemma identity_table:
  assumes e: "exact_on fl n" and n: "0 < n" "3 * n \<le> INT_MAX"
    and al: "al ''Pcontrib''" "al ''Pcontrib_bounds''" "al ''Pcpool''"
  shows "make_clist fl al n n BOUNDARY_CLAMP (Some \<circ> box_filter) (1 / 2) 1 0
           = Built (map (\<lambda>i. [\<lparr>weight = 1, pixel = word_of_int i\<rparr>]) [0 .. n - 1])"
proof (rule make_clist_eq_Built)
  have fn: "fl (of_int n) = of_int n" using e n by (intro exact_on_int) auto
  show "fl (of_int n) \<noteq> 0" using fn n by simp
  have "fl 1 = 1" using exact_on_consts(2) [OF e] n by simp
  then show "clist_xscale fl n n \<noteq> 0"
    using n by (simp add: clist_xscale_def fn)
  show "\<forall>i \<in> {0 .. n - 1}. clist_row fl n n BOUNDARY_CLAMP (Some \<circ> box_filter) (1 / 2) 1 0 i
          = Built [\<lparr>weight = 1, pixel = word_of_int i\<rparr>]"
    using identity_row [OF e _ _ n(2)] by simp
  have b: "clist_bounds fl n n (1 / 2) 1 0 i = \<lparr>center = of_int i, left = i - 1, right = i + 1\<rparr>"
    if "i \<in> set [0 .. n - 1]" for i
    using that by (intro identity_parts(3) [OF e]) simp_all
  show "\<forall>i \<in> {0 .. n - 1}.
          INT_MIN \<le> left (clist_bounds fl n n (1 / 2) 1 0 i)
          \<and> right (clist_bounds fl n n (1 / 2) 1 0 i) \<le> INT_MAX"
    using b n by (auto simp: INT_MIN_def)
  have "map (\<lambda>i. right (clist_bounds fl n n (1 / 2) 1 0 i)
                   - left (clist_bounds fl n n (1 / 2) 1 0 i) + 1) [0 .. n - 1]
          = map (\<lambda>i. 3) [0 .. n - 1]"
    using b by (intro map_cong) simp_all
  then have "(\<Sum>i \<leftarrow> [0 .. n - 1]. right (clist_bounds fl n n (1 / 2) 1 0 i)
                 - left (clist_bounds fl n n (1 / 2) 1 0 i) + 1)
               = (\<Sum>i \<leftarrow> [0 .. n - 1]. 3)"
    by (rule arg_cong)
  also have "\<dots> = 3 * n" using n by (simp add: sum_list_triv)
  finally show "(\<Sum>i \<leftarrow> [0 .. n - 1]. right (clist_bounds fl n n (1 / 2) 1 0 i)
                 - left (clist_bounds fl n n (1 / 2) 1 0 i) + 1) \<le> INT_MAX"
    using n by simp
qed (use al n in simp_all)

lemma exact_on_id: "exact_on (\<lambda>x. x) n"
  by (simp add: exact_on_def)

lemma clist_row_kept:
  assumes "clist_row fl src_w dst_w boundary_op Pfilter filter_support filter_scale src_ofs i = Built l"
  shows "map pixel l = map (\<lambda>j. word_of_int (reflect j src_w boundary_op))
           (clist_kept fl src_w dst_w Pfilter filter_support filter_scale src_ofs i)"
proof -
  from make_row_Built [OF assms [unfolded clist_row_def]]
  show ?thesis
    by (simp add: add_residual_pixels row_state_def store_contribs_p stored_def comp_def
          clist_kept_def Let_def)
qed

lemma clist_kept_sorted:
  "sorted_wrt (<) (clist_kept fl src_w dst_w Pfilter filter_support filter_scale src_ofs i)"
  unfolding clist_kept_def Let_def by (rule kept_sorted)

lemma clist_kept_subset:
  "set (clist_kept fl src_w dst_w Pfilter filter_support filter_scale src_ofs i)
     \<subseteq> {left (clist_bounds fl src_w dst_w filter_support filter_scale src_ofs i) ..
         right (clist_bounds fl src_w dst_w filter_support filter_scale src_ofs i)}"
  unfolding clist_kept_def Let_def using kept_subset by fastforce

lemma nth_map_upto:
  assumes "0 \<le> i" "i < n"
  shows "map f [0 .. n - 1] ! nat i = f i"
proof -
  have "nat i < length [0 .. n - 1]" using assms by simp
  then have "map f [0 .. n - 1] ! nat i = f ([0 .. n - 1] ! nat i)" by (rule nth_map)
  also have "[0 .. n - 1] ! nat i = 0 + int (nat i)" using assms by (intro nth_upto) simp
  finally show ?thesis using assms by simp
qed

text \<open>
  C3, amended. The contributors of one list come from pairwise distinct candidate
  coordinates, in increasing order, and each stores the boundary-resolved index of its
  candidate. The stored indices are pairwise distinct when every kept candidate lies
  inside \<open>[0, src_w)\<close> and \<open>src_w\<close> is at most 65536; candidates that the boundary policy
  maps to one index are stored as separate contributors carrying that same index.
\<close>

theorem contributors_of_distinct_candidates:
  assumes "make_clist fl al src_w dst_w boundary_op Pfilter filter_support filter_scale src_ofs
             = Built tbl"
    and "i < nat dst_w"
  shows "let ks = clist_kept fl src_w dst_w Pfilter filter_support filter_scale src_ofs (int i)
         in sorted_wrt (<) ks
            \<and> map pixel (tbl ! i) = map (\<lambda>j. word_of_int (reflect j src_w boundary_op)) ks
            \<and> (0 < src_w \<and> src_w \<le> 65536 \<and> set ks \<subseteq> {0 ..< src_w}
                 \<longrightarrow> distinct (map pixel (tbl ! i)))"
proof -
  let ?ks = "clist_kept fl src_w dst_w Pfilter filter_support filter_scale src_ofs (int i)"
  have s: "sorted_wrt (<) ?ks" by (rule clist_kept_sorted)
  have m: "map pixel (tbl ! i) = map (\<lambda>j. word_of_int (reflect j src_w boundary_op)) ?ks"
    using make_clist_Built(2) [OF assms] by (rule clist_row_kept)
  have d: "distinct (map pixel (tbl ! i))"
    if "0 < src_w" "src_w \<le> 65536" "set ?ks \<subseteq> {0 ..< src_w}"
  proof -
    have "distinct ?ks" using s by (simp add: strict_sorted_iff)
    moreover have "inj_on (\<lambda>j. word_of_int (reflect j src_w boundary_op) :: 16 word) (set ?ks)"
    proof (rule inj_onI)
      fix x y assume x: "x \<in> set ?ks" and y: "y \<in> set ?ks"
        and eq: "(word_of_int (reflect x src_w boundary_op) :: 16 word)
                   = word_of_int (reflect y src_w boundary_op)"
      from x y that have r: "0 \<le> x" "x < 65536" "0 \<le> y" "y < 65536" "x < src_w" "y < src_w"
        by auto
      then have "reflect x src_w boundary_op = x" "reflect y src_w boundary_op = y"
        by (simp_all add: reflect_def)
      with eq have "uint (word_of_int x :: 16 word) = uint (word_of_int y :: 16 word)" by simp
      then show "x = y" using r by (simp add: uint_ushort)
    qed
    ultimately show ?thesis unfolding m by (simp add: distinct_map)
  qed
  show ?thesis unfolding Let_def using s m d by blast
qed

theorem contributors_of_distinct_candidates_witness:
  "(0 :: nat) < nat 2 \<and>
   map pixel ([[\<lparr>weight = 1 / 4, pixel = 0\<rparr>, \<lparr>weight = 3 / 4, pixel = 0\<rparr>],
               [\<lparr>weight = 3 / 4, pixel = 0\<rparr>, \<lparr>weight = 1 / 4, pixel = 0\<rparr>]] ! 0) =
     map (\<lambda>j. word_of_int (reflect j 1 BOUNDARY_CLAMP))
       (clist_kept (\<lambda>x. x) 1 2 (Some \<circ> tent_filter (\<lambda>x. x)) 1 1 0 (int 0))"
  using contributors_of_distinct_candidates [OF exact_tent_up2, of 0]
  by (simp add: Let_def)

section \<open>The stored indices\<close>

text \<open>
  The index stored for a candidate is its boundary-resolved index reduced modulo
  \<open>2 ^ 16\<close>. When the extent is a positive value of \<open>int\<close> and no candidate kept is
  \<open>INT_MIN\<close>, the resolved index lies in \<open>[0, src_w)\<close>, and so does the stored one; for an
  extent of at most 65536 the two are then equal. For a larger extent they can differ:
  with the extent 65537 the contributor of destination coordinate 65536 resolves to 65536
  and is stored as 0.
\<close>

lemma kept_candidates_in_int:
  assumes "make_clist fl al src_w dst_w boundary_op Pfilter filter_support filter_scale src_ofs
             = Built tbl"
    and "i < nat dst_w"
    and "j \<in> set (clist_kept fl src_w dst_w Pfilter filter_support filter_scale src_ofs (int i))"
  shows "INT_MIN \<le> j \<and> j \<le> INT_MAX"
  using make_clist_Built(3) [OF assms(1,2)] assms(3)
    clist_kept_subset [of fl src_w dst_w Pfilter filter_support filter_scale src_ofs "int i"]
  by auto

lemma stored_index_mod:
  assumes "make_clist fl al src_w dst_w boundary_op Pfilter filter_support filter_scale src_ofs
             = Built tbl"
    and "i < nat dst_w"
  shows "map (\<lambda>c. uint (pixel c)) (tbl ! i) =
           map (\<lambda>j. reflect j src_w boundary_op mod 2 ^ 16)
             (clist_kept fl src_w dst_w Pfilter filter_support filter_scale src_ofs (int i))"
proof -
  let ?ks = "clist_kept fl src_w dst_w Pfilter filter_support filter_scale src_ofs (int i)"
  have "map pixel (tbl ! i) = map (\<lambda>j. word_of_int (reflect j src_w boundary_op)) ?ks"
    using make_clist_Built(2) [OF assms] by (rule clist_row_kept)
  then have "map (uint \<circ> pixel) (tbl ! i)
               = map (uint \<circ> (\<lambda>j. word_of_int (reflect j src_w boundary_op) :: 16 word)) ?ks"
    by (metis map_map)
  then show ?thesis by (simp add: comp_def uint_ushort)
qed

lemma stored_index_in_range:
  assumes "make_clist fl al src_w dst_w boundary_op Pfilter filter_support filter_scale src_ofs
             = Built tbl"
    and "i < nat dst_w"
    and "0 < src_w" "src_w \<le> INT_MAX"
    and "INT_MIN \<notin> set (clist_kept fl src_w dst_w Pfilter filter_support filter_scale src_ofs
                            (int i))"
  shows "\<forall>c \<in> set (tbl ! i). 0 \<le> uint (pixel c) \<and> uint (pixel c) < src_w"
    and "src_w \<le> 65536 \<Longrightarrow>
           map (\<lambda>c. uint (pixel c)) (tbl ! i) =
             map (\<lambda>j. reflect j src_w boundary_op)
               (clist_kept fl src_w dst_w Pfilter filter_support filter_scale src_ofs (int i))"
proof -
  let ?ks = "clist_kept fl src_w dst_w Pfilter filter_support filter_scale src_ofs (int i)"
  note m = stored_index_mod [OF assms(1,2)]
  have r: "0 \<le> reflect j src_w boundary_op \<and> reflect j src_w boundary_op < src_w"
    if "j \<in> set ?ks" for j
  proof -
    from kept_candidates_in_int [OF assms(1,2) that] assms(5) that
    have "INT_MIN < j" "j \<le> INT_MAX" by (auto simp: less_le)
    with assms(3,4) show ?thesis by (intro reflect_range)
  qed
  show "\<forall>c \<in> set (tbl ! i). 0 \<le> uint (pixel c) \<and> uint (pixel c) < src_w"
  proof
    fix c assume "c \<in> set (tbl ! i)"
    then have "uint (pixel c) \<in> set (map (\<lambda>c. uint (pixel c)) (tbl ! i))" by simp
    then obtain j where j: "j \<in> set ?ks" "uint (pixel c) = reflect j src_w boundary_op mod 2 ^ 16"
      unfolding m by auto
    have "reflect j src_w boundary_op mod 2 ^ 16 \<le> reflect j src_w boundary_op"
      using r [OF j(1)] by (intro zmod_le_nonneg_dividend) simp
    with r [OF j(1)] j(2) show "0 \<le> uint (pixel c) \<and> uint (pixel c) < src_w" by simp
  qed
  assume "src_w \<le> 65536"
  then have "reflect j src_w boundary_op mod 2 ^ 16 = reflect j src_w boundary_op"
    if "j \<in> set ?ks" for j
    using r [OF that] by simp
  then show "map (\<lambda>c. uint (pixel c)) (tbl ! i) = map (\<lambda>j. reflect j src_w boundary_op) ?ks"
    unfolding m by (intro map_cong) simp_all
qed

lemma stored_index_65537:
  "\<exists>t. make_clist (\<lambda>x. x) (\<lambda>v. True) 65537 65537 BOUNDARY_CLAMP (Some \<circ> box_filter)
          (1 / 2) 1 0 = Built t
       \<and> map (\<lambda>c. uint (pixel c)) (t ! 65536) = [0]
       \<and> map (\<lambda>j. reflect j 65537 BOUNDARY_CLAMP)
            (clist_kept (\<lambda>x. x) 65537 65537 (Some \<circ> box_filter) (1 / 2) 1 0 65536)
          = [65536]"
proof -
  let ?t = "map (\<lambda>i. [\<lparr>weight = 1, pixel = word_of_int i :: 16 word\<rparr>]) [0 .. 65537 - 1]"
  have a: "make_clist (\<lambda>x. x) (\<lambda>v. True) 65537 65537 BOUNDARY_CLAMP (Some \<circ> box_filter)
          (1 / 2) 1 0 = Built ?t"
    by (rule identity_table [OF exact_on_id]) (simp_all add: INT_MAX_def)
  have "?t ! nat 65536 = [\<lparr>weight = 1, pixel = word_of_int 65536\<rparr>]"
    by (rule nth_map_upto) simp_all
  then have b: "map (\<lambda>c. uint (pixel c)) (?t ! 65536) = [0]" by simp
  have "clist_kept (\<lambda>x. x) 65537 65537 (Some \<circ> box_filter) (1 / 2) 1 0 65536 = [65536]"
    by (rule identity_kept [OF exact_on_id]) simp_all
  then have c: "map (\<lambda>j. reflect j 65537 BOUNDARY_CLAMP)
               (clist_kept (\<lambda>x. x) 65537 65537 (Some \<circ> box_filter) (1 / 2) 1 0 65536) = [65536]"
    by (simp add: reflect_def)
  show ?thesis
    by (rule exI [of _ ?t]) (intro conjI a b c)
qed

text \<open>
  A source offset of \<open>- 2 ^ 31\<close>, in single precision, with three source and three
  destination samples and the box filter: the center of every destination sample rounds
  to \<open>- 2 ^ 31\<close>, its only candidate is \<open>INT_MIN\<close>, and the weight of that candidate is 1.
\<close>

lemma far_xscale: "clist_xscale binary32 3 3 = 1"
  by (simp add: clist_xscale_def binary32_def round_even_def)

lemma far_half_width: "clist_half_width binary32 3 3 (1 / 2) 1 = 1 / 2"
  by (simp add: clist_half_width_def far_xscale) (simp add: binary32_def round_even_def)

lemma far_round:
  "binary32 (- 2147483648) = - 2147483648"
  "binary32 (- (4294967297 / 2)) = - 2147483648"
  "binary32 (- (4294967295 / 2)) = - 2147483648"
  "binary32 (- 2147483647) = - 2147483648"
  "binary32 (- 2147483646) = - 2147483648"
  "binary32 0 = 0" "binary32 1 = 1" "binary32 2 = 2" "binary32 (1 / 2) = 1 / 2"
  "binary32 (3 / 2) = 3 / 2" "binary32 (5 / 2) = 5 / 2"
  by (simp_all add: binary32_def round_even_def)

lemma far_bounds:
  assumes "0 \<le> i" "i \<le> 2"
  shows "clist_bounds binary32 3 3 (1 / 2) 1 (- 2147483648) i =
           \<lparr>center = - 2147483648, left = - 2147483648, right = - 2147483648\<rparr>"
proof -
  from assms have "i = 0 \<or> i = 1 \<or> i = 2" by arith
  then show ?thesis
    unfolding clist_bounds_def contrib_bounds_def far_xscale far_half_width NUDGE_def Let_def
    by (auto simp: far_round)
qed

lemma far_weight:
  "row_weight binary32 (Some \<circ> box_filter) 1 1 False
     \<lparr>center = - 2147483648, left = - 2147483648, right = - 2147483648\<rparr> (- 2147483648) = 1"
  by (simp add: row_weight_def filter_arg_def box_filter_def far_round)

lemma far_js: "[- 2147483648 .. - 2147483648 :: int] = [- 2147483648]"
  by (simp add: upto_rec1)

lemma far_raw_total:
  "sum_weights binary32 (row_weight binary32 (Some \<circ> box_filter) 1 1 False
     \<lparr>center = - 2147483648, left = - 2147483648, right = - 2147483648\<rparr>)
     [- 2147483648 .. - 2147483648] 0 = 1"
  unfolding far_js by (simp add: far_weight far_round)

lemma far_norm:
  "row_norm binary32 (Some \<circ> box_filter) 1 1 False
     \<lparr>center = - 2147483648, left = - 2147483648, right = - 2147483648\<rparr> = 1"
  unfolding row_norm_def Contrib_Bounds.simps far_raw_total by (simp add: far_round)

lemma far_state:
  "row_state binary32 3 boundary_op (Some \<circ> box_filter) 1 1 False
     \<lparr>center = - 2147483648, left = - 2147483648, right = - 2147483648\<rparr> =
   \<lparr>p = [\<lparr>weight = 1, pixel = word_of_int (reflect (- 2147483648) 3 boundary_op)\<rparr>],
     total_weight = 1, max_k = 0, max_w = 1\<rparr>"
proof -
  have m: "binary32 (- (10 ^ 20)) < 1" by (simp add: binary32_def round_even_def)
  show ?thesis
    unfolding row_state_def Contrib_Bounds.simps far_norm far_js
    using m by (simp add: store_contribs_step far_weight far_round del: store_contribs.simps(2))
qed

lemma far_row:
  assumes "0 \<le> i" "i \<le> 2"
  shows "clist_row binary32 3 3 boundary_op (Some \<circ> box_filter) (1 / 2) 1 (- 2147483648) i =
           Built [\<lparr>weight = 1, pixel = word_of_int (reflect (- 2147483648) 3 boundary_op)\<rparr>]"
proof -
  let ?b = "\<lparr>center = - 2147483648, left = - 2147483648, right = - 2147483648\<rparr>"
  let ?B = "Some \<circ> box_filter"
  have "make_row binary32 3 boundary_op ?B 1 1 False ?b
          = Built (add_residual binary32 (row_state binary32 3 boundary_op ?B 1 1 False ?b))"
  proof (rule make_row_eq_Built)
    show "sum_weights binary32 (row_weight binary32 ?B 1 1 False ?b) [left ?b .. right ?b] 0 \<noteq> 0"
      unfolding Contrib_Bounds.simps far_raw_total by simp
    show "max_k (row_state binary32 3 boundary_op ?B 1 1 False ?b) \<noteq> - 1"
      unfolding far_state by simp
    show "p (row_state binary32 3 boundary_op ?B 1 1 False ?b) \<noteq> []"
      unfolding far_state by simp
    show "right ?b \<noteq> INT_MAX" by (simp add: INT_MAX_def)
  qed simp
  then have r: "make_row binary32 3 boundary_op ?B 1 1 False ?b
      = Built [\<lparr>weight = 1, pixel = word_of_int (reflect (- 2147483648) 3 boundary_op)\<rparr>]"
    unfolding far_state add_residual_def by simp
  have oo: "binary32 (1 / 1) = 1" by (simp add: far_round)
  have lt: "((1 :: real) < 1) = False" by simp
  show ?thesis
    unfolding clist_row_def far_bounds [OF assms] far_xscale oo lt by (rule r)
qed

lemma far_table:
  "make_clist binary32 (\<lambda>v. True) 3 3 boundary_op (Some \<circ> box_filter) (1 / 2) 1 (- 2147483648) =
     Built (replicate 3 [\<lparr>weight = 1, pixel = word_of_int (reflect (- 2147483648) 3 boundary_op)\<rparr>])"
proof -
  have u: "[0 .. 3 - 1 :: int] = [0, 1, 2]" by (simp add: upto_rec1)
  have "make_clist binary32 (\<lambda>v. True) 3 3 boundary_op (Some \<circ> box_filter) (1 / 2) 1 (- 2147483648)
          = Built (map (\<lambda>i. [\<lparr>weight = 1, pixel = word_of_int (reflect (- 2147483648) 3 boundary_op)\<rparr>])
                     [0 .. 3 - 1])"
  proof (rule make_clist_eq_Built)
    show "binary32 (of_int 3) \<noteq> 0" by (simp add: binary32_def round_even_def)
    show "clist_xscale binary32 3 3 \<noteq> 0" unfolding far_xscale by simp
    show "\<forall>i \<in> {0 .. 3 - 1}.
            clist_row binary32 3 3 boundary_op (Some \<circ> box_filter) (1 / 2) 1 (- 2147483648) i
              = Built [\<lparr>weight = 1, pixel = word_of_int (reflect (- 2147483648) 3 boundary_op)\<rparr>]"
      using far_row by auto
    show "\<forall>i \<in> {0 .. 3 - 1}.
        INT_MIN \<le> left (clist_bounds binary32 3 3 (1 / 2) 1 (- 2147483648) i)
        \<and> right (clist_bounds binary32 3 3 (1 / 2) 1 (- 2147483648) i) \<le> INT_MAX"
      using far_bounds by (auto simp: INT_MIN_def INT_MAX_def)
    show "(\<Sum>i \<leftarrow> [0 .. 3 - 1]. right (clist_bounds binary32 3 3 (1 / 2) 1 (- 2147483648) i)
             - left (clist_bounds binary32 3 3 (1 / 2) 1 (- 2147483648) i) + 1) \<le> INT_MAX"
      unfolding u by (simp add: far_bounds INT_MAX_def)
  qed simp_all
  then show ?thesis unfolding u by (simp add: numeral_3_eq_3)
qed

lemma far_resolved:
  "reflect (- 2147483648) 3 BOUNDARY_WRAP = 5"
  "reflect (- 2147483648) 3 BOUNDARY_REFLECT = - 2147483648"
  "reflect (- 2147483648) 3 BOUNDARY_CLAMP = 0"
  by (simp_all add: reflect_def posmod_def c_rem_def c_div_def wrap_def Let_def)

lemma far_kept:
  assumes "0 \<le> i" "i \<le> 2"
  shows "clist_kept binary32 3 3 (Some \<circ> box_filter) (1 / 2) 1 (- 2147483648) i = [- 2147483648]"
proof -
  have oo: "binary32 (1 / 1) = 1" by (simp add: far_round)
  have lt: "((1 :: real) < 1) = False" by simp
  show ?thesis
    unfolding clist_kept_def Let_def far_bounds [OF assms] far_xscale oo lt far_norm
      Contrib_Bounds.simps far_js
    by (simp add: kept_def far_weight far_round)
qed

text \<open>
  C5 fails for such an offset. With the wrap policy \<open>posmod\<close> negates the candidate
  \<open>INT_MIN\<close>, the negation overflows, and the index stored for each of the three
  destination samples is 5: the table is built, and its indices are outside \<open>[0, 3)\<close>.
\<close>

theorem index_outside_extent:
  "make_clist binary32 (\<lambda>v. True) 3 3 BOUNDARY_WRAP (Some \<circ> box_filter) (1 / 2) 1 (- (2 ^ 31)) =
     Built [[\<lparr>weight = 1, pixel = 5\<rparr>], [\<lparr>weight = 1, pixel = 5\<rparr>], [\<lparr>weight = 1, pixel = 5\<rparr>]]
   \<and> clist_kept binary32 3 3 (Some \<circ> box_filter) (1 / 2) 1 (- (2 ^ 31)) 0 = [INT_MIN]
   \<and> reflect INT_MIN 3 BOUNDARY_WRAP = 5
   \<and> \<not> uint (5 :: 16 word) < 3"
  using far_table [of BOUNDARY_WRAP] far_kept [of 0]
  by (simp add: far_resolved INT_MIN_def numeral_3_eq_3)

text \<open>
  C10 fails for the same offset. The stored index is the resolved index modulo \<open>2 ^ 16\<close>,
  but with the reflect policy the negation of the candidate \<open>INT_MIN\<close> overflows and the
  resolved index is \<open>INT_MIN\<close>: the extent 3 is below 65536, and the stored index 0 is not
  the resolved one.
\<close>

theorem stored_index_not_resolved:
  "make_clist binary32 (\<lambda>v. True) 3 3 BOUNDARY_REFLECT (Some \<circ> box_filter) (1 / 2) 1 (- (2 ^ 31)) =
     Built [[\<lparr>weight = 1, pixel = 0\<rparr>], [\<lparr>weight = 1, pixel = 0\<rparr>], [\<lparr>weight = 1, pixel = 0\<rparr>]]
   \<and> clist_kept binary32 3 3 (Some \<circ> box_filter) (1 / 2) 1 (- (2 ^ 31)) 0 = [INT_MIN]
   \<and> reflect INT_MIN 3 BOUNDARY_REFLECT = INT_MIN
   \<and> uint (0 :: 16 word) = INT_MIN mod 2 ^ 16
   \<and> uint (0 :: 16 word) \<noteq> INT_MIN"
  using far_table [of BOUNDARY_REFLECT] far_kept [of 0]
  by (simp add: far_resolved INT_MIN_def numeral_3_eq_3)


section \<open>A destination sample without contributors\<close>












section \<open>The kernels and the clamp to zero\<close>

lemma clean_cases:
  "clean fl v = 0 \<or> (fl (125 / 10 ^ 7) \<le> \<bar>v\<bar> \<and> clean fl v = fl v)"
  by (simp add: clean_def Let_def)

lemma clean_result: "clean fl v = 0 \<or> (\<exists>u. fl (125 / 10 ^ 7) \<le> \<bar>u\<bar> \<and> clean fl v = fl u)"
  using clean_cases [of fl v] by blast

lemma lanczos3_cleaned:
  "lanczos3_filter fl dbl t = 0 \<or> (\<exists>u. fl (125 / 10 ^ 7) \<le> \<bar>u\<bar> \<and> lanczos3_filter fl dbl t = fl u)"
  unfolding lanczos3_filter_def Let_def using clean_result by simp

lemma lanczos4_cleaned:
  "lanczos4_filter fl dbl t = 0 \<or> (\<exists>u. fl (125 / 10 ^ 7) \<le> \<bar>u\<bar> \<and> lanczos4_filter fl dbl t = fl u)"
  unfolding lanczos4_filter_def Let_def using clean_result by simp

lemma lanczos6_cleaned:
  "lanczos6_filter fl dbl t = 0 \<or> (\<exists>u. fl (125 / 10 ^ 7) \<le> \<bar>u\<bar> \<and> lanczos6_filter fl dbl t = fl u)"
  unfolding lanczos6_filter_def Let_def using clean_result by simp

lemma lanczos12_cleaned:
  "lanczos12_filter fl dbl t = 0 \<or> (\<exists>u. fl (125 / 10 ^ 7) \<le> \<bar>u\<bar> \<and> lanczos12_filter fl dbl t = fl u)"
  unfolding lanczos12_filter_def Let_def using clean_result by simp

lemma blackman_cleaned:
  "blackman_filter fl dbl t = 0 \<or> (\<exists>u. fl (125 / 10 ^ 7) \<le> \<bar>u\<bar> \<and> blackman_filter fl dbl t = fl u)"
  unfolding blackman_filter_def Let_def using clean_result by simp

lemma gaussian_cleaned:
  "gaussian_filter fl dbl t = 0 \<or> (\<exists>u. fl (125 / 10 ^ 7) \<le> \<bar>u\<bar> \<and> gaussian_filter fl dbl t = fl u)"
  unfolding gaussian_filter_def Let_def using clean_result by simp

lemma kaiser_cleaned:
  assumes "kaiser_filter fl dbl t = Some y"
  shows "y = 0 \<or> (\<exists>u. fl (125 / 10 ^ 7) \<le> \<bar>u\<bar> \<and> y = fl u)"
  using assms clean_result
  unfolding kaiser_filter_def Let_def
  by (auto split: if_splits option.splits)

lemma box_values: "box_filter t = 0 \<or> box_filter t = 1"
  by (simp add: box_filter_def)

text \<open>
  C6, amended. The table has 16 entries. The seven windowed kernels (lanczos3, blackman,
  lanczos4, lanczos6, lanczos12, kaiser, gaussian) hand the value they compute to \<open>clean\<close>:
  when its magnitude is below \<open>EPSILON\<close> (the \<open>Resample_Real\<close> nearest \<open>1.25e-5\<close>) they
  return exactly zero, so that a result that is not zero is the rounding of a value of
  magnitude at least \<open>EPSILON\<close>. The box filter returns zero or one. (Nothing is said of
  the other eight kernels, which are not clamped.)
\<close>

theorem cleaned_kernels:
  "length (g_filters fl dbl) = 16 \<and>
   (\<forall>e \<in> set (g_filters fl dbl). \<forall>t y. func e t = Some y \<longrightarrow>
      (name e = ''box'' \<longrightarrow> y = 0 \<or> y = 1) \<and>
      (name e \<in> {''lanczos3'', ''blackman'', ''lanczos4'', ''lanczos6'', ''lanczos12'',
                  ''kaiser'', ''gaussian''}
         \<longrightarrow> y = 0 \<or> (\<exists>u. fl (125 / 10 ^ 7) \<le> \<bar>u\<bar> \<and> y = fl u)))"
proof (intro conjI ballI allI impI)
  show "length (g_filters fl dbl) = 16" by (simp add: g_filters_def)
next
  fix e t y
  assume e: "e \<in> set (g_filters fl dbl)" and y: "func e t = Some y" and n: "name e = ''box''"
  from e n have "func e = Some \<circ> box_filter" by (auto simp: g_filters_def)
  with y box_values [of t] show "y = 0 \<or> y = 1" by auto
next
  fix e t y
  assume e: "e \<in> set (g_filters fl dbl)" and y: "func e t = Some y"
    and n: "name e \<in> {''lanczos3'', ''blackman'', ''lanczos4'', ''lanczos6'', ''lanczos12'',
                  ''kaiser'', ''gaussian''}"
  from e n have "func e = Some \<circ> lanczos3_filter fl dbl \<or> func e = Some \<circ> blackman_filter fl dbl
      \<or> func e = Some \<circ> lanczos4_filter fl dbl \<or> func e = Some \<circ> lanczos6_filter fl dbl
      \<or> func e = Some \<circ> lanczos12_filter fl dbl \<or> func e = kaiser_filter fl dbl
      \<or> func e = Some \<circ> gaussian_filter fl dbl"
    by (auto simp: g_filters_def)
  with y show "y = 0 \<or> (\<exists>u. fl (125 / 10 ^ 7) \<le> \<bar>u\<bar> \<and> y = fl u)"
    using lanczos3_cleaned [of fl dbl t] blackman_cleaned [of fl dbl t]
      lanczos4_cleaned [of fl dbl t] lanczos6_cleaned [of fl dbl t]
      lanczos12_cleaned [of fl dbl t] gaussian_cleaned [of fl dbl t]
      kaiser_cleaned [of fl dbl t y]
    by (elim disjE) auto
qed

theorem cleaned_kernels_witness:
  "\<lparr>name = ''lanczos3'', func = Some \<circ> lanczos3_filter (\<lambda>x. x) (\<lambda>x. x), support = 3\<rparr>
     \<in> set (g_filters (\<lambda>x. x) (\<lambda>x. x))
   \<and> func \<lparr>name = ''lanczos3'', func = Some \<circ> lanczos3_filter (\<lambda>x. x) (\<lambda>x. x), support = 3\<rparr> 0
       = Some 1
   \<and> ((1 :: real) = 0 \<or> (\<exists>u :: real. 125 / 10 ^ 7 \<le> \<bar>u\<bar> \<and> 1 = u))"
proof -
  let ?e = "\<lparr>name = ''lanczos3'', func = Some \<circ> lanczos3_filter (\<lambda>x. x) (\<lambda>x. x), support = 3\<rparr>"
  have m: "?e \<in> set (g_filters (\<lambda>x. x) (\<lambda>x. x))" by (simp add: g_filters_def)
  have s0: "sinc (\<lambda>x. x) (\<lambda>x. x) 0 = 1" by (simp add: sinc_def)
  have v: "func ?e 0 = Some 1"
    by (simp add: lanczos3_filter_def s0 clean_def)
  from cleaned_kernels [of "\<lambda>x. x" "\<lambda>x. x"] m v
  have "(1 :: real) = 0 \<or> (\<exists>u :: real. 125 / 10 ^ 7 \<le> \<bar>u\<bar> \<and> 1 = u)"
    by fastforce
  with m v show ?thesis by (intro conjI)
qed

lemma small_outputs:
  "binary32 (125 / 10 ^ 7) = 13743895 / 1099511627776"
  "tent_filter binary32 (131071 / 131072) = 1 / 131072"
  "bell_filter binary32 (383 / 256) = 1 / 131072"
  "B_spline_filter binary32 (63 / 32) = 11184811 / 2199023255552"
  "quadratic_interp_filter binary32 (98303 / 65536) = - (1 / 131072)"
  "quadratic_approx_filter binary32 (383 / 256) = 1 / 131072"
  "quadratic_mix_filter binary32 (49151 / 32768) = - (19 / 2097152)"
  "mitchell_filter binary32 (511 / 256) = - (10835285 / 2199023255552)"
  "catmull_rom_filter binary32 (511 / 256) = - (1 / 131072)"
  by (simp_all add: tent_filter_def bell_filter_def B_spline_filter_def
        quadratic_interp_filter_def quadratic_approx_filter_def quadratic_mix_filter_def
        quadratic_def QUADRATIC_SUPPORT_def mitchell_filter_def catmull_rom_filter_def
        mitchell_def binary32_def round_even_def)

text \<open>
  C6, as stated, fails. The tent filter (entry 1 of the table) computes \<open>1 - t\<close> and returns
  it as it is: at \<open>t = 1 - 1 / 2 ^ 17\<close>, in single precision, the result is \<open>1 / 2 ^ 17\<close>,
  about \<open>7.6e-6\<close>, below \<open>1.25e-5\<close> and not zero. The bell, B-spline, Mitchell, Catmull-Rom
  and the three quadratic filters return such values too.
\<close>

theorem uncleaned_kernels_counterexample:
  "\<lparr>name = ''tent'', func = Some \<circ> tent_filter binary32, support = 1\<rparr>
     \<in> set (g_filters binary32 binary32)
   \<and> tent_filter binary32 (131071 / 131072) = 1 / 131072
   \<and> (1 / 131072 :: real) < 125 / 10 ^ 7
   \<and> tent_filter binary32 (131071 / 131072) \<noteq> 0
   \<and> \<bar>tent_filter binary32 (131071 / 131072)\<bar> < binary32 (125 / 10 ^ 7)
   \<and> bell_filter binary32 (383 / 256) \<noteq> 0
   \<and> \<bar>bell_filter binary32 (383 / 256)\<bar> < binary32 (125 / 10 ^ 7)
   \<and> B_spline_filter binary32 (63 / 32) \<noteq> 0
   \<and> \<bar>B_spline_filter binary32 (63 / 32)\<bar> < binary32 (125 / 10 ^ 7)
   \<and> quadratic_interp_filter binary32 (98303 / 65536) \<noteq> 0
   \<and> \<bar>quadratic_interp_filter binary32 (98303 / 65536)\<bar> < binary32 (125 / 10 ^ 7)
   \<and> quadratic_approx_filter binary32 (383 / 256) \<noteq> 0
   \<and> \<bar>quadratic_approx_filter binary32 (383 / 256)\<bar> < binary32 (125 / 10 ^ 7)
   \<and> quadratic_mix_filter binary32 (49151 / 32768) \<noteq> 0
   \<and> \<bar>quadratic_mix_filter binary32 (49151 / 32768)\<bar> < binary32 (125 / 10 ^ 7)
   \<and> mitchell_filter binary32 (511 / 256) \<noteq> 0
   \<and> \<bar>mitchell_filter binary32 (511 / 256)\<bar> < binary32 (125 / 10 ^ 7)
   \<and> catmull_rom_filter binary32 (511 / 256) \<noteq> 0
   \<and> \<bar>catmull_rom_filter binary32 (511 / 256)\<bar> < binary32 (125 / 10 ^ 7)"
  unfolding small_outputs by (simp add: g_filters_def)

section \<open>A full scan buffer\<close>

lemma find_slot_le: "find_slot v ys \<le> length ys"
  by (induction ys) simp_all

lemma find_slot_full: "find_slot v ys = length ys \<longleftrightarrow> v \<notin> set ys"
  using find_slot_le [of v] by (induction ys) (auto simp: Suc_le_eq)

lemma find_slot_found: "v \<in> set ys \<Longrightarrow> find_slot v ys < length ys \<and> ys ! find_slot v ys = v"
  by (induction ys) auto

text \<open>
  C8. When \<open>put_line\<close> is called for a source line that has dependent destination lines
  (its count is not zero) and no slot of the scan buffer is free, it returns \<open>false\<close> and
  the state is the one before the call but for the status, now \<open>STATUS_SCAN_BUFFER_FULL\<close>:
  the line is not stored, no slot is taken and \<open>m_cur_src_y\<close> does not move.
\<close>

theorem put_line_scan_buffer_full:
  assumes "0 \<le> m_cur_src_y s" "m_cur_src_y s < m_resample_src_h s"
    and "m_Psrc_y_count s = Some count" "nat (m_cur_src_y s) < length count"
    and "count ! nat (m_cur_src_y s) \<noteq> 0"
    and "m_Pscan_buf s = Some sb" "- 1 \<notin> set (scan_buf_y sb)"
  shows "put_line fl malloc_ok s Psrc = Some (False, s\<lparr>m_status := STATUS_SCAN_BUFFER_FULL\<rparr>)"
  using assms
  by (simp add: put_line_def resampler_range_check_def read_at_def find_slot_full Let_def)

lemma box_down2:
  "make_clist (\<lambda>x. x) (\<lambda>v. True) 2 1 BOUNDARY_CLAMP (Some \<circ> box_filter) (1 / 2) 1 0 =
     Built [[\<lparr>weight = 1 / 2, pixel = 0\<rparr>, \<lparr>weight = 1 / 2, pixel = 1\<rparr>]]"
  by (simp add: make_clist_def make_clist_heap_def make_row_def contrib_bounds_def NUDGE_def
        filter_arg_def box_filter_def Let_def reflect_def upto_rec1 range_size_def wrap_def
        INT_MIN_def INT_MAX_def)

lemma box_same1:
  "make_clist (\<lambda>x. x) (\<lambda>v. True) 1 1 BOUNDARY_CLAMP (Some \<circ> box_filter) (1 / 2) 1 0 =
     Built [[\<lparr>weight = 1, pixel = 0\<rparr>]]"
  using identity_table [OF exact_on_id, of 1 "\<lambda>v. True"] by (simp add: upto_rec1 INT_MAX_def)

lemma find_box:
  "find (\<lambda>e. name e = ''box'') (g_filters (\<lambda>x. x) (\<lambda>x. x)) =
     Some \<lparr>name = ''box'', func = Some \<circ> box_filter, support = 1 / 2\<rparr>"
  by (simp add: g_filters_def)

lemma narrow_engine:
  "Resampler_new (\<lambda>x. x) (\<lambda>x. x) narrow_header plentiful blank (box_arguments 1 2 1 1)
     = Built narrow_engine"
  apply (simp add: Resampler_new_def box_arguments_def plentiful_def find_box box_same1 box_down2)
  apply (simp add: finish_construction_def small_header_def narrow_header_def blank_def Let_def
      resampler_range_check_def read_at_def c_div_def narrow_engine_def)
  apply (simp add: numeral_2_eq_2)
  done

lemma narrow_first_put:
  "put_line (\<lambda>x. x) True narrow_engine [7] = Some (True, narrow_engine_fed)"
  by (simp add: put_line_def blank_def resampler_range_check_def read_at_def write_at_def
        narrow_engine_def narrow_engine_fed_def)

theorem put_line_scan_buffer_full_witness:
  "Resampler_new (\<lambda>x. x) (\<lambda>x. x) narrow_header plentiful blank (box_arguments 1 2 1 1)
     = Built narrow_engine
   \<and> put_line (\<lambda>x. x) True narrow_engine [7] = Some (True, narrow_engine_fed)
   \<and> put_line (\<lambda>x. x) True narrow_engine_fed [9]
       = Some (False, narrow_engine_fed\<lparr>m_status := STATUS_SCAN_BUFFER_FULL\<rparr>)"
proof -
  have "put_line (\<lambda>x. x) True narrow_engine_fed [9]
       = Some (False, narrow_engine_fed\<lparr>m_status := STATUS_SCAN_BUFFER_FULL\<rparr>)"
    by (rule put_line_scan_buffer_full [where count = "[1, 1]"
          and sb = "\<lparr>scan_buf_y = [0], scan_buf_l = [Some [7]]\<rparr>"])
       (simp_all add: narrow_engine_fed_def narrow_engine_def blank_def)
  with narrow_engine narrow_first_put show ?thesis by (intro conjI)
qed

end
